theory Spec2Isabelle
  imports Complex_Main
begin

section \<open>Values\<close>

text \<open>
  The dashboard (\<^verbatim>\<open>src/dashboard.py\<close>) works on pandas cells and Python floats.
  A cell of a data frame is a text, a number, the float \<^verbatim>\<open>nan\<close> (\<open>NA\<close>, what pandas
  puts for a missing number) or \<^verbatim>\<open>None\<close> (\<open>PyNone\<close>, a missing value of a column of
  objects); \<^verbatim>\<open>pd.notna\<close> is false for the last two.  An optional Python number
  (\<^verbatim>\<open>None\<close> or a float) is a \<^typ>\<open>real option\<close>.
\<close>

datatype cell = Str string | Num real | NA | PyNone

fun notna :: "cell \<Rightarrow> bool" where
  "notna NA = False"
| "notna PyNone = False"
| "notna (Str s) = True"
| "notna (Num x) = True"

datatype pyerror = KeyError string | ValueError string | ZeroDivisionError

datatype notice = St_warning string | St_error string | St_success string

text \<open>An exception ends the computation: the first \<open>Inl\<close> is the result.\<close>

definition bind_err :: "'e + 'a \<Rightarrow> ('a \<Rightarrow> 'e + 'b) \<Rightarrow> 'e + 'b" where
  "bind_err m f = (case m of Inl e \<Rightarrow> Inl e | Inr x \<Rightarrow> f x)"

section \<open>Floats\<close>

text \<open>
  A Python float is an IEEE 754 binary64 number.  It is modelled as the real number it
  denotes, and every operation as the exact operation on reals followed by \<open>rnd64\<close>, the
  rounding to the nearest binary64 number, a tie going to the even significand.

  \<open>round_half_even\<close> rounds to the nearest integer, a tie going to the even one.
  \<open>rnd_hi\<close> halves a number of at least \<open>2 ^ 53\<close> until it is below, \<open>rnd_lo\<close> doubles a
  number below \<open>2 ^ 52\<close> until it is not, at most 1074 times: the number then lies
  between \<open>2 ^ 52\<close> and \<open>2 ^ 53\<close>, where the binary64 numbers are the integers, or it is
  subnormal, and is rounded to an integer and scaled back.  The exponent is not bounded
  from above: overflow to infinity is outside the model, and so is \<^verbatim>\<open>nan\<close> as a
  number.
\<close>

definition round_half_even :: "real \<Rightarrow> int" where
  "round_half_even y =
     (let f = \<lfloor>y\<rfloor>; d = y - of_int f
      in if d < 1 / 2 then f
         else if 1 / 2 < d then f + 1
         else if even f then f else f + 1)"

function rnd_hi :: "real \<Rightarrow> real" where
  "rnd_hi x = (if 2 ^ 53 \<le> x then 2 * rnd_hi (x / 2) else of_int (round_half_even x))"
  by pat_completeness auto
termination
proof (relation "measure (\<lambda>x. nat \<lfloor>x\<rfloor>)")
  show "wf (measure (\<lambda>x. nat \<lfloor>x\<rfloor>))" by simp
next
  fix x :: real
  assume h: "2 ^ 53 \<le> x"
  have "\<lfloor>x / 2\<rfloor> \<le> \<lfloor>x - 1\<rfloor>" using h by (intro floor_mono) simp
  then have "\<lfloor>x / 2\<rfloor> < \<lfloor>x\<rfloor>" by simp
  moreover have "0 < \<lfloor>x\<rfloor>" using h by simp
  ultimately show "(x / 2, x) \<in> measure (\<lambda>x. nat \<lfloor>x\<rfloor>)" by simp
qed

function rnd_lo :: "nat \<Rightarrow> real \<Rightarrow> real" where
  "rnd_lo n x = (if x < 2 ^ 52 \<and> n < 1074 then rnd_lo (Suc n) (2 * x) / 2 else of_int (round_half_even x))"
  by pat_completeness auto
termination
  by (relation "measure (\<lambda>(n, x). 1074 - n)") auto

declare rnd_hi.simps [simp del] rnd_lo.simps [simp del]

definition rnd_pos :: "real \<Rightarrow> real" where
  "rnd_pos x = (if 2 ^ 52 \<le> x then rnd_hi x else rnd_lo 0 x)"

definition rnd64 :: "real \<Rightarrow> real" where
  "rnd64 x = (if x = 0 then 0 else if 0 < x then rnd_pos x else - rnd_pos (- x))"

text \<open>Float multiplication, subtraction and division; division by zero raises.\<close>

definition fmul :: "real \<Rightarrow> real \<Rightarrow> real" where
  "fmul x y = rnd64 (x * y)"

definition fsub :: "real \<Rightarrow> real \<Rightarrow> real" where
  "fsub x y = rnd64 (x - y)"

definition fdiv :: "real \<Rightarrow> real \<Rightarrow> real" where
  "fdiv x y = rnd64 (x / y)"

definition py_div :: "real \<Rightarrow> real \<Rightarrow> pyerror + real" where
  "py_div x y = (if y = 0 then Inl ZeroDivisionError else Inr (fdiv x y))"

text \<open>
  \<^verbatim>\<open>round(x, 2)\<close> of a float: the float nearest to the multiple of 1/100 that is
  nearest to the exact value of \<open>x\<close>, a tie going to the even multiple.
\<close>

definition round2 :: "real \<Rightarrow> real" where
  "round2 x = rnd64 (of_int (round_half_even (x * 100)) / 100)"

text \<open>Truth value of an optional number: \<^verbatim>\<open>None\<close> and \<^verbatim>\<open>0.0\<close> are false.\<close>

fun truthy :: "real option \<Rightarrow> bool" where
  "truthy None = False"
| "truthy (Some x) = (x \<noteq> 0)"

text \<open>\<^verbatim>\<open>a or b\<close> on optional numbers.\<close>

definition py_or :: "real option \<Rightarrow> real option \<Rightarrow> real option" where
  "py_or a b = (if truthy a then a else b)"

text \<open>
  What the libraries do with content that the program does not fix is a parameter:
  \<^verbatim>\<open>str\<close> of a float, \<^verbatim>\<open>float\<close> of a text (\<open>None\<close> where it raises
  \<^verbatim>\<open>ValueError\<close>), \<^verbatim>\<open>pd.to_numeric\<close> of a text (\<open>None\<close> where
  \<^verbatim>\<open>errors="coerce"\<close> gives \<^verbatim>\<open>nan\<close>), and the texts of two exceptions of the
  spreadsheet client: for a header row with a repeated name, and for a \<^verbatim>\<open>nan\<close> in
  the rows to send.
\<close>

record pyenv =
  str_float :: "real \<Rightarrow> string"
  float_str :: "string \<Rightarrow> real option"
  to_numeric_str :: "string \<Rightarrow> real option"
  header_error :: string
  nan_error :: string

text \<open>\<^verbatim>\<open>str.strip\<close> and \<^verbatim>\<open>str.upper\<close> on ASCII text.\<close>

definition is_space :: "char \<Rightarrow> bool" where
  "is_space c \<longleftrightarrow>
     c \<in> set [CHR 0x09, CHR 0x0A, CHR 0x0B, CHR 0x0C, CHR 0x0D,
              CHR 0x1C, CHR 0x1D, CHR 0x1E, CHR 0x1F, CHR 0x20]"

definition strip :: "string \<Rightarrow> string" where
  "strip s = rev (dropWhile is_space (rev (dropWhile is_space s)))"

definition upper_char :: "char \<Rightarrow> char" where
  "upper_char c =
     (case map_of (zip ''abcdefghijklmnopqrstuvwxyz'' ''ABCDEFGHIJKLMNOPQRSTUVWXYZ'') c of
        Some u \<Rightarrow> u
      | None \<Rightarrow> c)"

definition upper :: "string \<Rightarrow> string" where
  "upper s = map upper_char s"

section \<open>Data frames\<close>

text \<open>
  A data frame is its column names and its rows, each row holding one cell per column
  (\<^verbatim>\<open>df.columns.tolist()\<close> and \<^verbatim>\<open>df.values.tolist()\<close>).
\<close>

record dataframe =
  columns :: "string list"
  data :: "cell list list"


text \<open>\<^verbatim>\<open>pd.DataFrame(columns=["Ticker", "Shares", "Buy Price ($)", "Your Target Price ($)"])\<close>\<close>

definition base_columns :: "string list" where
  "base_columns = [''Ticker'', ''Shares'', ''Buy Price ($)'', ''Your Target Price ($)'']"

definition empty_holdings :: dataframe where
  "empty_holdings = \<lparr>columns = base_columns, data = []\<rparr>"

text \<open>\<^verbatim>\<open>row[name]\<close> on a row of \<^verbatim>\<open>df.iterrows()\<close>.\<close>

definition row_get :: "string list \<Rightarrow> cell list \<Rightarrow> string \<Rightarrow> pyerror + cell" where
  "row_get cols r name =
     (case map_of (zip cols r) name of
        None \<Rightarrow> Inl (KeyError name)
      | Some c \<Rightarrow> Inr c)"

text \<open>
  \<^verbatim>\<open>df[name] = vals\<close>: an existing column is replaced where it stands, a new one is
  appended; pandas raises \<^verbatim>\<open>ValueError\<close> when the lengths differ.
\<close>

definition set_column :: "string \<Rightarrow> cell list \<Rightarrow> dataframe \<Rightarrow> pyerror + dataframe" where
  "set_column name vals df =
     (if length vals \<noteq> length (data df) then Inl (ValueError ''Length of values does not match length of index'')
      else if name \<in> set (columns df)
      then Inr (df\<lparr>data := map2 (\<lambda>r v. map2 (\<lambda>c x. if c = name then v else x) (columns df) r) (data df) vals\<rparr>)
      else Inr \<lparr>columns = columns df @ [name], data = map2 (\<lambda>r v. r @ [v]) (data df) vals\<rparr>)"

section \<open>Refresh Prices\<close>

text \<open>
  The market data provider: \<^verbatim>\<open>yf.Ticker(ticker).info\<close> either raises (\<open>Inl\<close> the
  exception's text) or gives the three entries that the program reads with
  \<^verbatim>\<open>info.get\<close>, each \<open>None\<close> when the key is missing.  The numbers of the provider
  are floats: an entry is read as the float nearest to the number given.
\<close>

record info =
  currentPrice :: "real option"
  regularMarketPrice :: "real option"
  targetMeanPrice :: "real option"

type_synonym provider = "string \<Rightarrow> string + info"

definition as_float :: "real option \<Rightarrow> real option" where
  "as_float x = map_option rnd64 x"

text \<open>
  \<^verbatim>\<open>float(c) if pd.notna(c) else ...\<close>: \<open>Inr None\<close> is the else branch; \<^verbatim>\<open>float\<close>
  of a number is the float nearest to it.
\<close>

fun float_notna :: "pyenv \<Rightarrow> cell \<Rightarrow> pyerror + real option" where
  "float_notna env NA = Inr None"
| "float_notna env PyNone = Inr None"
| "float_notna env (Num x) = Inr (Some (rnd64 x))"
| "float_notna env (Str s) =
     (case float_str env s of
        None \<Rightarrow> Inl (ValueError s)
      | Some x \<Rightarrow> Inr (Some (rnd64 x)))"

text \<open>\<^verbatim>\<open>str(c).strip().upper() if pd.notna(c) else ""\<close>\<close>

fun ticker_of :: "pyenv \<Rightarrow> cell \<Rightarrow> string" where
  "ticker_of env NA = []"
| "ticker_of env PyNone = []"
| "ticker_of env (Str s) = upper (strip s)"
| "ticker_of env (Num x) = upper (strip (str_float env x))"

definition or_zero :: "real option \<Rightarrow> real" where
  "or_zero x = (case x of None \<Rightarrow> 0 | Some v \<Rightarrow> v)"

text \<open>Lines 76 to 79: ticker, shares, buy price and the user's target of one row.\<close>

definition read_row :: "pyenv \<Rightarrow> string list \<Rightarrow> cell list \<Rightarrow> pyerror + (string \<times> real \<times> real \<times> real option)" where
  "read_row env cols r =
     bind_err (row_get cols r ''Ticker'') (\<lambda>ct.
     bind_err (row_get cols r ''Shares'') (\<lambda>cs.
     bind_err (float_notna env cs) (\<lambda>shares.
     bind_err (row_get cols r ''Buy Price ($)'') (\<lambda>cb.
     bind_err (float_notna env cb) (\<lambda>buy_price.
     bind_err (row_get cols r ''Your Target Price ($)'') (\<lambda>cy.
     bind_err (float_notna env cy) (\<lambda>your_target.
     Inr (ticker_of env ct, or_zero shares, or_zero buy_price, your_target))))))))"

text \<open>
  Lines 81 to 92: price and analyst target of a ticker, with the error reported when the
  provider raises.  No call is made for an empty ticker.
\<close>

definition round2_if :: "real option \<Rightarrow> real option" where
  "round2_if x = (if truthy x then map_option round2 x else None)"

definition fetch :: "provider \<Rightarrow> string \<Rightarrow> real option \<times> real option \<times> notice list" where
  "fetch yf ticker =
     (if ticker = [] then (None, None, [])
      else case yf ticker of
             Inl e \<Rightarrow> (None, None, [St_error (''Error fetching '' @ ticker @ '': '' @ e)])
           | Inr i \<Rightarrow>
               (round2_if (py_or (as_float (currentPrice i)) (as_float (regularMarketPrice i))),
                round2_if (as_float (targetMeanPrice i)), []))"

text \<open>
  Lines 94 to 105: the seven values appended for one row.  The seven parallel lists of the
  source are kept as one list of these records; list \<open>k\<close> of the source is the projection
  to field \<open>k\<close>.
\<close>

record derived =
  current_price :: "real option"
  current_value :: "real option"
  total_cost :: "real option"
  profit_dollar :: "real option"
  profit_pct :: "real option"
  analyst_target :: "real option"
  analyst_upside :: "real option"

text \<open>
  The guards are Python truth values: \<^verbatim>\<open>price and shares\<close> holds when the price is a
  nonzero number and the shares are nonzero; \<^verbatim>\<open>cost and cost != 0\<close> tests twice that
  the cost is a nonzero number; \<^verbatim>\<open>value is not None\<close> accepts the number 0.  The two
  divisions are Python divisions, which raise for a zero divisor.
\<close>

definition value_of :: "real option \<Rightarrow> real \<Rightarrow> real option" where
  "value_of price shares =
     (case price of
        Some p \<Rightarrow> if p \<noteq> 0 \<and> shares \<noteq> 0 then Some (round2 (fmul p shares)) else None
      | None \<Rightarrow> None)"

definition cost_of :: "real \<Rightarrow> real \<Rightarrow> real option" where
  "cost_of buy_price shares =
     (if buy_price \<noteq> 0 \<and> shares \<noteq> 0 then Some (round2 (fmul buy_price shares)) else None)"

definition profit_dollar_of :: "real option \<Rightarrow> real option \<Rightarrow> real option" where
  "profit_dollar_of v c =
     (case v of
        None \<Rightarrow> None
      | Some x \<Rightarrow> (case c of None \<Rightarrow> None | Some y \<Rightarrow> Some (round2 (fsub x y))))"

definition profit_pct_of :: "real option \<Rightarrow> real option \<Rightarrow> pyerror + real option" where
  "profit_pct_of p c =
     (case p of
        None \<Rightarrow> Inr None
      | Some x \<Rightarrow>
          (case c of
             None \<Rightarrow> Inr None
           | Some y \<Rightarrow>
               if y \<noteq> 0 \<and> y \<noteq> 0
               then bind_err (py_div x y) (\<lambda>q. Inr (Some (round2 (fmul q 100))))
               else Inr None))"

definition upside_of :: "real option \<Rightarrow> real option \<Rightarrow> pyerror + real option" where
  "upside_of analyst price =
     (case analyst of
        None \<Rightarrow> Inr None
      | Some a \<Rightarrow>
          (case price of
             None \<Rightarrow> Inr None
           | Some p \<Rightarrow>
               if a \<noteq> 0 \<and> p \<noteq> 0 \<and> 0 < p
               then bind_err (py_div (fsub a p) p) (\<lambda>q. Inr (Some (round2 (fmul q 100))))
               else Inr None))"

definition derive :: "real \<Rightarrow> real \<Rightarrow> real option \<Rightarrow> real option \<Rightarrow> pyerror + derived" where
  "derive shares buy_price price analyst =
     (let v = value_of price shares;
          cost = cost_of buy_price shares;
          pd = profit_dollar_of v cost
      in bind_err (profit_pct_of pd cost) (\<lambda>pct.
         bind_err (upside_of analyst price) (\<lambda>up.
         Inr \<lparr>current_price = price, current_value = v, total_cost = cost, profit_dollar = pd,
              profit_pct = pct, analyst_target = analyst, analyst_upside = up\<rparr>)))"

text \<open>
  One pass through the body of the loop (lines 76 to 105): the values appended for the row
  and the errors reported.  An exception while reading the row or computing its values is
  not caught by the program.
\<close>

definition process_row :: "pyenv \<Rightarrow> provider \<Rightarrow> string list \<Rightarrow> cell list \<Rightarrow> pyerror + (derived \<times> notice list)" where
  "process_row env yf cols r =
     (case read_row env cols r of
        Inl e \<Rightarrow> Inl e
      | Inr (ticker, shares, buy_price, your_target) \<Rightarrow>
          (case fetch yf ticker of
             (price, analyst, ms) \<Rightarrow>
               bind_err (derive shares buy_price price analyst) (\<lambda>d. Inr (d, ms))))"

text \<open>
  The loop of lines 75 to 105.  An uncaught exception ends the run; the errors reported
  before it stay reported.
\<close>

fun refresh_loop :: "pyenv \<Rightarrow> provider \<Rightarrow> string list \<Rightarrow> cell list list \<Rightarrow> notice list \<times> (pyerror + derived list)" where
  "refresh_loop env yf cols [] = ([], Inr [])"
| "refresh_loop env yf cols (r # rs) =
     (case process_row env yf cols r of
        Inl e \<Rightarrow> ([], Inl e)
      | Inr (d, ms) \<Rightarrow>
          (case refresh_loop env yf cols rs of
             (ms', Inl e) \<Rightarrow> (ms @ ms', Inl e)
           | (ms', Inr ds) \<Rightarrow> (ms @ ms', Inr (d # ds))))"

text \<open>
  Lines 115 to 117 and the percentage of line 122.  The three sums are kept exact; the
  percentage is a Python division and a float multiplication.
\<close>

definition total_value :: "derived list \<Rightarrow> real" where
  "total_value ds = sum_list (List.map_filter (\<lambda>v. if truthy v then v else None) (map current_value ds))"

definition total_cost_sum :: "derived list \<Rightarrow> real" where
  "total_cost_sum ds = sum_list (List.map_filter (\<lambda>c. if truthy c then c else None) (map total_cost ds))"

definition total_profit :: "derived list \<Rightarrow> real" where
  "total_profit ds = sum_list (List.map_filter (\<lambda>p. p) (map profit_dollar ds))"

definition delta_pct :: "real \<Rightarrow> real \<Rightarrow> pyerror + real" where
  "delta_pct tp tc =
     (if tc \<noteq> 0 \<and> tc \<noteq> 0 then bind_err (py_div tp tc) (\<lambda>q. Inr (fmul q 100)) else Inr 0)"

text \<open>
  Lines 107 to 113: the seven lists become columns of the edited frame.  pandas makes a
  list of \<^verbatim>\<open>None\<close> only a column of objects that keeps each \<^verbatim>\<open>None\<close>, and a list with
  a number in it a column of floats in which \<^verbatim>\<open>None\<close> is \<^verbatim>\<open>nan\<close>.
\<close>

definition cell_of :: "real option \<Rightarrow> cell" where
  "cell_of x = (case x of None \<Rightarrow> NA | Some v \<Rightarrow> Num v)"

definition column_cells :: "real option list \<Rightarrow> cell list" where
  "column_cells vals =
     (if list_all (\<lambda>x. x = None) vals then map (\<lambda>_. PyNone) vals else map cell_of vals)"

definition add_derived_columns :: "derived list \<Rightarrow> dataframe \<Rightarrow> pyerror + dataframe" where
  "add_derived_columns ds edited =
     bind_err (set_column ''Current Price'' (column_cells (map current_price ds)) edited) (\<lambda>e1.
     bind_err (set_column ''Current Value ($)'' (column_cells (map current_value ds)) e1) (\<lambda>e2.
     bind_err (set_column ''Total Cost ($)'' (column_cells (map total_cost ds)) e2) (\<lambda>e3.
     bind_err (set_column ''Profit/Loss ($)'' (column_cells (map profit_dollar ds)) e3) (\<lambda>e4.
     bind_err (set_column ''Profit/Loss (%)'' (column_cells (map profit_pct ds)) e4) (\<lambda>e5.
     bind_err (set_column ''Analyst Target'' (column_cells (map analyst_target ds)) e5) (\<lambda>e6.
     set_column ''Analyst Upside (%)'' (column_cells (map analyst_upside ds)) e6))))))"


section \<open>The holdings store\<close>

text \<open>
  The worksheet is the list of its rows, the header row first.  The spreadsheet client
  is a library outside the repository; its four calls are modelled from the
  specification's words for the holdings store.  Each call may raise: \<open>faults\<close> says
  which calls do, with the exception's text, and a call that raises leaves the worksheet
  as it found it.
\<close>

type_synonym sheet = "cell list list"

datatype call = Clear | Append_row | Append_rows | Get_all_records

type_synonym faults = "call \<Rightarrow> string option"

text \<open>
  Modelled from the spec: \<^verbatim>\<open>sheet.clear()\<close> of the spreadsheet client, the first half
  of the store's "bulk overwrite (clear + append)": "bulk write clears the destination".
\<close>

definition sheet_clear :: "faults \<Rightarrow> sheet \<Rightarrow> string + sheet" where
  "sheet_clear fl sh = (case fl Clear of Some e \<Rightarrow> Inl e | None \<Rightarrow> Inr [])"

text \<open>
  Modelled from the spec: \<^verbatim>\<open>sheet.append_row\<close> of the spreadsheet client, which
  writes the header in the second half of the bulk overwrite: it "re-appends a header row
  plus all data rows verbatim".  The row is sent as JSON, in which \<^verbatim>\<open>None\<close> is
  \<^verbatim>\<open>null\<close> and a \<^verbatim>\<open>nan\<close> cannot be written: the client raises for a row that
  holds one and sends nothing.
\<close>

definition sheet_append_row :: "pyenv \<Rightarrow> faults \<Rightarrow> cell list \<Rightarrow> sheet \<Rightarrow> string + sheet" where
  "sheet_append_row env fl r sh =
     (case fl Append_row of
        Some e \<Rightarrow> Inl e
      | None \<Rightarrow> if NA \<in> set r then Inl (nan_error env) else Inr (sh @ [r]))"

text \<open>
  Modelled from the spec: \<^verbatim>\<open>sheet.append_rows\<close> of the spreadsheet client, which
  writes "all data rows verbatim" after the header, as one JSON request: the client
  raises for rows that hold a \<^verbatim>\<open>nan\<close> and sends none of them.
\<close>

definition sheet_append_rows :: "pyenv \<Rightarrow> faults \<Rightarrow> cell list list \<Rightarrow> sheet \<Rightarrow> string + sheet" where
  "sheet_append_rows env fl rs sh =
     (case fl Append_rows of
        Some e \<Rightarrow> Inl e
      | None \<Rightarrow> if \<exists>r \<in> set rs. NA \<in> set r then Inl (nan_error env) else Inr (sh @ rs))"

text \<open>
  The name that a header cell gives to its column, and a cell as it is read back: as it
  was written, an empty one (\<^verbatim>\<open>null\<close>) as the empty text.
\<close>

fun key_of :: "pyenv \<Rightarrow> cell \<Rightarrow> string" where
  "key_of env (Str s) = s"
| "key_of env (Num x) = str_float env x"
| "key_of env NA = []"
| "key_of env PyNone = []"

fun read_cell :: "cell \<Rightarrow> cell" where
  "read_cell PyNone = Str []"
| "read_cell NA = Str []"
| "read_cell (Str s) = Str s"
| "read_cell (Num x) = Num x"

text \<open>
  Modelled from the spec: \<^verbatim>\<open>sheet.get_all_records()\<close> of the spreadsheet client, the
  store's "bulk read (all rows)": it "returns a list of records with string-keyed
  fields", one record for each row under the header row, pairing the header's names with
  the row's cells.  The client raises for a header row with a repeated name.
\<close>

definition sheet_get_all_records :: "pyenv \<Rightarrow> faults \<Rightarrow> sheet \<Rightarrow> string + (string \<times> cell) list list" where
  "sheet_get_all_records env fl sh =
     (case fl Get_all_records of
        Some e \<Rightarrow> Inl e
      | None \<Rightarrow>
          (case sh of
             [] \<Rightarrow> Inr []
           | h # rs \<Rightarrow>
               if distinct (map (key_of env) h)
               then Inr (map (\<lambda>r. zip (map (key_of env) h) (map read_cell r)) rs)
               else Inl (header_error env)))"

text \<open>\<^verbatim>\<open>pd.DataFrame(records)\<close> for a non-empty list of records with the same keys.\<close>

definition DataFrame :: "(string \<times> cell) list list \<Rightarrow> dataframe" where
  "DataFrame records =
     (case records of
        [] \<Rightarrow> \<lparr>columns = [], data = []\<rparr>
      | r # _ \<Rightarrow> \<lparr>columns = map fst r, data = map (map snd) records\<rparr>)"

text \<open>
  \<^verbatim>\<open>df[name] = pd.to_numeric(df[name], errors="coerce").fillna(0.0)\<close>; a missing
  column is a \<^verbatim>\<open>KeyError\<close>.
\<close>

fun to_numeric_fillna :: "pyenv \<Rightarrow> cell \<Rightarrow> cell" where
  "to_numeric_fillna env (Num x) = Num x"
| "to_numeric_fillna env NA = Num 0"
| "to_numeric_fillna env PyNone = Num 0"
| "to_numeric_fillna env (Str s) = (case to_numeric_str env s of Some x \<Rightarrow> Num x | None \<Rightarrow> Num 0)"

definition coerce_column :: "pyenv \<Rightarrow> string \<Rightarrow> dataframe \<Rightarrow> pyerror + dataframe" where
  "coerce_column env name df =
     (if name \<in> set (columns df)
      then Inr (df\<lparr>data := map (\<lambda>r. map2 (\<lambda>c x. if c = name then to_numeric_fillna env x else x) (columns df) r) (data df)\<rparr>)
      else Inl (KeyError name))"

fun error_text :: "pyerror \<Rightarrow> string" where
  "error_text (KeyError k) = [CHR 0x27] @ k @ [CHR 0x27]"
| "error_text (ValueError m) = m"
| "error_text ZeroDivisionError = ''float division by zero''"

text \<open>Lines 21 to 34.\<close>

definition load_failed :: "string \<Rightarrow> dataframe \<times> notice list" where
  "load_failed e =
     (empty_holdings, [St_warning (''Google Sheets load failed: '' @ e @ ''. Starting with empty table.'')])"

definition load_holdings :: "pyenv \<Rightarrow> faults \<Rightarrow> sheet \<Rightarrow> dataframe \<times> notice list" where
  "load_holdings env fl sh =
     (case sheet_get_all_records env fl sh of
        Inl e \<Rightarrow> load_failed e
      | Inr records \<Rightarrow>
          if records \<noteq> []
          then (case bind_err (coerce_column env ''Shares'' (DataFrame records)) (\<lambda>d1.
                     bind_err (coerce_column env ''Buy Price ($)'' d1) (\<lambda>d2.
                     coerce_column env ''Your Target Price ($)'' d2)) of
                  Inl e \<Rightarrow> load_failed (error_text e)
                | Inr df \<Rightarrow> (df, []))
          else (empty_holdings, []))"

text \<open>Lines 36 to 43.\<close>

definition save_failed :: "string \<Rightarrow> notice" where
  "save_failed e = St_error (''Save failed: '' @ e)"

definition save_holdings :: "pyenv \<Rightarrow> faults \<Rightarrow> dataframe \<Rightarrow> sheet \<Rightarrow> sheet \<times> notice" where
  "save_holdings env fl df sh =
     (case sheet_clear fl sh of
        Inl e \<Rightarrow> (sh, save_failed e)
      | Inr s1 \<Rightarrow>
          (case sheet_append_row env fl (map Str (columns df)) s1 of
             Inl e \<Rightarrow> (s1, save_failed e)
           | Inr s2 \<Rightarrow>
               (case sheet_append_rows env fl (data df) s2 of
                  Inl e \<Rightarrow> (s2, save_failed e)
                | Inr s3 \<Rightarrow> (s3, St_success ''Holdings saved to Google Sheets!''))))"

section \<open>One run of the script\<close>

text \<open>
  Every interaction runs the script from the top with the session state of the run before.
  \<open>session_holdings\<close> is \<^verbatim>\<open>st.session_state.holdings\<close> (\<open>None\<close> before the first
  run), \<open>editor\<close> is what the user does in \<^verbatim>\<open>st.data_editor\<close>, and at most one button
  is pressed in a run.  Line 60 binds the session's holdings to the frame \<open>edited\<close>
  itself, so the columns that lines 107 to 113 assign to \<open>edited\<close> are columns of the
  session's holdings from then on.
\<close>

record app_state =
  session_holdings :: "dataframe option"
  worksheet :: sheet

datatype button = No_button | Save_button | Refresh_button

record totals =
  portfolio_value :: real
  invested :: real
  profit :: real
  profit_delta_pct :: real

record run_result =
  state :: app_state
  notices :: "notice list"
  metrics :: "totals option"
  crashed :: "pyerror option"

definition totals_of :: "derived list \<Rightarrow> pyerror + totals" where
  "totals_of ds =
     bind_err (delta_pct (total_profit ds) (total_cost_sum ds)) (\<lambda>pct.
     Inr \<lparr>portfolio_value = total_value ds, invested = total_cost_sum ds, profit = total_profit ds,
          profit_delta_pct = pct\<rparr>)"

definition refresh_prices :: "pyenv \<Rightarrow> provider \<Rightarrow> dataframe \<Rightarrow> app_state \<Rightarrow> notice list \<Rightarrow> run_result" where
  "refresh_prices env yf edited st ms0 =
     (case refresh_loop env yf (columns edited) (data edited) of
        (ms, Inl e) \<Rightarrow> \<lparr>state = st, notices = ms0 @ ms, metrics = None, crashed = Some e\<rparr>
      | (ms, Inr ds) \<Rightarrow>
          (case add_derived_columns ds edited of
             Inl e \<Rightarrow> \<lparr>state = st, notices = ms0 @ ms, metrics = None, crashed = Some e\<rparr>
           | Inr edited' \<Rightarrow>
               (case totals_of ds of
                  Inl e \<Rightarrow>
                    \<lparr>state = st\<lparr>session_holdings := Some edited'\<rparr>, notices = ms0 @ ms,
                     metrics = None, crashed = Some e\<rparr>
                | Inr t \<Rightarrow>
                    \<lparr>state = st\<lparr>session_holdings := Some edited'\<rparr>, notices = ms0 @ ms,
                     metrics = Some t, crashed = None\<rparr>)))"

definition script_run :: "pyenv \<Rightarrow> faults \<Rightarrow> provider \<Rightarrow> (dataframe \<Rightarrow> dataframe) \<Rightarrow> button \<Rightarrow> app_state \<Rightarrow> run_result" where
  "script_run env fl yf editor b st =
     (case (case session_holdings st of
              None \<Rightarrow> load_holdings env fl (worksheet st)
            | Some h \<Rightarrow> (h, [])) of
        (holdings, ms0) \<Rightarrow>
          (let edited = editor holdings;
               st1 = st\<lparr>session_holdings := Some edited\<rparr>
           in case b of
                No_button \<Rightarrow> \<lparr>state = st1, notices = ms0, metrics = None, crashed = None\<rparr>
              | Save_button \<Rightarrow>
                  (case save_holdings env fl edited (worksheet st1) of
                     (sh, m) \<Rightarrow> \<lparr>state = st1\<lparr>worksheet := sh\<rparr>, notices = ms0 @ [m], metrics = None, crashed = None\<rparr>)
              | Refresh_button \<Rightarrow> refresh_prices env yf edited st1 ms0))"

section \<open>Reference definitions\<close>


text \<open>A store whose calls all succeed, and library conversions that accept no text.\<close>

definition no_faults :: faults where
  "no_faults = (\<lambda>_. None)"

definition plain_env :: pyenv where
  "plain_env = \<lparr>str_float = (\<lambda>_. []), float_str = (\<lambda>_. None), to_numeric_str = (\<lambda>_. None),
     header_error = ''header row is not unique'',
     nan_error = ''Out of range float values are not JSON compliant''\<rparr>"





text \<open>
  A provider that raises for one ticker and answers a price of 200 and a mean target of
  220 for every other, and a worksheet holding one position.
\<close>

definition demo_provider :: provider where
  "demo_provider t =
     (if t = ''BADTICKER'' then Inl ''no data''
      else Inr \<lparr>currentPrice = Some 200, regularMarketPrice = None, targetMeanPrice = Some 220\<rparr>)"

definition demo_sheet :: sheet where
  "demo_sheet = [map Str base_columns, [Str ''AAPL'', Num 10, Num 150, Num 180]]"

section \<open>Rounding to a float\<close>

text \<open>
  Rounding to an integer: integers are fixed, a number within a half of an integer goes to
  it, the error is at most a half, and the rounding is monotone against integers and odd.
\<close>

lemma round_half_even_of_int: "round_half_even (of_int k) = k"
  by (simp add: round_half_even_def)

lemma round_half_even_near:
  assumes "\<bar>t - of_int k\<bar> < 1 / 2"
  shows "round_half_even t = k"
proof (cases "of_int k \<le> t")
  case True
  with assms have f: "\<lfloor>t\<rfloor> = k" by (intro floor_unique) auto
  with assms True show ?thesis by (simp add: round_half_even_def)
next
  case False
  with assms have f: "\<lfloor>t\<rfloor> = k - 1" by (intro floor_unique) auto
  with assms False show ?thesis by (simp add: round_half_even_def)
qed

lemma round_half_even_error: "\<bar>of_int (round_half_even t) - t\<bar> \<le> 1 / 2"
proof -
  have "of_int \<lfloor>t\<rfloor> \<le> t" "t < of_int \<lfloor>t\<rfloor> + 1" by linarith+
  then show ?thesis by (auto simp: round_half_even_def Let_def)
qed

lemma round_half_even_ge: "of_int a \<le> t \<Longrightarrow> a \<le> round_half_even t"
proof -
  assume "of_int a \<le> t"
  then have "a \<le> \<lfloor>t\<rfloor>" by (simp add: le_floor_iff)
  then show ?thesis by (auto simp: round_half_even_def Let_def)
qed

lemma round_half_even_le:
  assumes "t \<le> of_int b"
  shows "round_half_even t \<le> b"
proof (cases "t = of_int b")
  case True
  then show ?thesis by (simp add: round_half_even_of_int)
next
  case False
  with assms have "t < of_int b" by simp
  then have "\<lfloor>t\<rfloor> < b" by (simp add: floor_less_iff)
  then show ?thesis by (auto simp: round_half_even_def Let_def)
qed

lemma round_half_even_minus: "round_half_even (- t) = - round_half_even t"
proof (cases "t = of_int \<lfloor>t\<rfloor>")
  case True
  then obtain k where "t = of_int k" ..
  then have "- t = of_int (- k)" by simp
  with \<open>t = of_int k\<close> show ?thesis by (simp only: round_half_even_of_int)
next
  case False
  define n where "n = \<lfloor>t\<rfloor>"
  have "of_int n \<le> t" and b2: "t < of_int n + 1" unfolding n_def by linarith+
  moreover from False have "of_int n \<noteq> t" unfolding n_def by (rule not_sym)
  ultimately have b1: "of_int n < t" by linarith
  have f: "\<lfloor>- t\<rfloor> = - n - 1"
    by (rule floor_unique) (use b1 b2 in simp_all)
  have g: "\<lfloor>t\<rfloor> = n" by (simp add: n_def)
  show ?thesis
    unfolding round_half_even_def Let_def f g using b1 b2 by auto
qed

text \<open>
  The recursions in closed form: the number is scaled by the power of two that brings it
  between \<open>2 ^ 52\<close> and \<open>2 ^ 53\<close> (or by \<open>2 ^ 1074\<close> when it is subnormal), rounded to
  an integer and scaled back; such a scale exists.
\<close>

lemma rnd_hi_form:
  "2 ^ 52 \<le> x / 2 ^ n \<Longrightarrow> x / 2 ^ n < 2 ^ 53 \<Longrightarrow>
     rnd_hi x = of_int (round_half_even (x / 2 ^ n)) * 2 ^ n"
proof (induction n arbitrary: x)
  case 0
  then have "\<not> 2 ^ 53 \<le> x" by simp
  then show ?case by (subst rnd_hi.simps) simp
next
  case (Suc n)
  have p: "(0::real) < 2 ^ n" by simp
  from Suc.prems have a: "2 ^ 52 \<le> (x / 2) / 2 ^ n" "(x / 2) / 2 ^ n < 2 ^ 53"
    by (simp_all add: field_simps)
  from Suc.prems(1) have "2 ^ 52 * 2 ^ Suc n \<le> x" by (simp add: field_simps)
  moreover have "(2::real) ^ 53 \<le> 2 ^ 52 * 2 ^ Suc n" using p by simp
  ultimately have "2 ^ 53 \<le> x" by linarith
  then have "rnd_hi x = 2 * rnd_hi (x / 2)" by (subst rnd_hi.simps) simp
  also have "\<dots> = 2 * (of_int (round_half_even ((x / 2) / 2 ^ n)) * 2 ^ n)"
    using Suc.IH[OF a] by simp
  finally show ?case by (simp add: field_simps)
qed

lemma rnd_lo_form:
  "k + n \<le> 1074 \<Longrightarrow> x * 2 ^ n < 2 ^ 53 \<Longrightarrow> 2 ^ 52 \<le> x * 2 ^ n \<or> k + n = 1074 \<Longrightarrow>
     rnd_lo k x = of_int (round_half_even (x * 2 ^ n)) / 2 ^ n"
proof (induction n arbitrary: k x)
  case 0
  then have "\<not> (x < 2 ^ 52 \<and> k < 1074)" by auto
  then have "rnd_lo k x = of_int (round_half_even x)" by (subst rnd_lo.simps) (simp only: if_False)
  then show ?case by simp
next
  case (Suc n)
  have p: "(1::real) \<le> 2 ^ n" by simp
  have "x < 2 ^ 52"
  proof (cases "0 < x")
    case True
    then have "x * 2 \<le> x * 2 * 2 ^ n" using p by simp
    with Suc.prems(2) show ?thesis by (simp add: mult.assoc)
  next
    case False
    then show ?thesis by (simp add: order.strict_trans1[of x 0])
  qed
  moreover from Suc.prems(1) have "k < 1074" by simp
  ultimately have "rnd_lo k x = rnd_lo (Suc k) (2 * x) / 2" by (subst rnd_lo.simps) simp
  also have "rnd_lo (Suc k) (2 * x) = of_int (round_half_even (2 * x * 2 ^ n)) / 2 ^ n"
    using Suc.prems by (intro Suc.IH) (simp_all add: mult.assoc mult.left_commute)
  finally show ?case by (simp add: mult.assoc mult.left_commute)
qed

lemma rnd_hi_scale: "2 ^ 52 \<le> (x::real) \<Longrightarrow> \<exists>n. 2 ^ 52 \<le> x / 2 ^ n \<and> x / 2 ^ n < 2 ^ 53"
proof (induction x rule: rnd_hi.induct)
  case (1 x)
  show ?case
  proof (cases "2 ^ 53 \<le> x")
    case True
    then have "2 ^ 52 \<le> x / 2" by simp
    from "1.IH"[OF True this] obtain n where "2 ^ 52 \<le> x / 2 / 2 ^ n" "x / 2 / 2 ^ n < 2 ^ 53"
      by blast
    then have "2 ^ 52 \<le> x / 2 ^ Suc n \<and> x / 2 ^ Suc n < 2 ^ 53" by (simp add: field_simps)
    then show ?thesis ..
  next
    case False
    with "1.prems" have "2 ^ 52 \<le> x / 2 ^ 0 \<and> x / 2 ^ 0 < 2 ^ 53" by simp
    then show ?thesis ..
  qed
qed

lemma rnd_lo_scale:
  "0 < (x::real) \<Longrightarrow> x < 2 ^ 52 \<Longrightarrow> k \<le> 1074 \<Longrightarrow>
     \<exists>n. k + n \<le> 1074 \<and> x * 2 ^ n < 2 ^ 53 \<and> (2 ^ 52 \<le> x * 2 ^ n \<or> k + n = 1074)"
proof (induction k x rule: rnd_lo.induct)
  case (1 k x)
  show ?case
  proof (cases "k < 1074")
    case True
    show ?thesis
    proof (cases "2 * x < 2 ^ 52")
      case small: True
      from "1.IH" "1.prems" True small
      obtain n where "Suc k + n \<le> 1074" "2 * x * 2 ^ n < 2 ^ 53"
        "2 ^ 52 \<le> 2 * x * 2 ^ n \<or> Suc k + n = 1074"
        by auto
      then have "k + Suc n \<le> 1074 \<and> x * 2 ^ Suc n < 2 ^ 53 \<and> (2 ^ 52 \<le> x * 2 ^ Suc n \<or> k + Suc n = 1074)"
        by (simp add: mult.assoc mult.left_commute)
      then show ?thesis ..
    next
      case False
      with "1.prems" True have "k + 1 \<le> 1074 \<and> x * 2 ^ 1 < 2 ^ 53 \<and> (2 ^ 52 \<le> x * 2 ^ 1 \<or> k + 1 = 1074)"
        by simp
      then show ?thesis ..
    qed
  next
    case False
    with "1.prems" have "k + 0 \<le> 1074 \<and> x * 2 ^ 0 < 2 ^ 53 \<and> (2 ^ 52 \<le> x * 2 ^ 0 \<or> k + 0 = 1074)"
      by simp
    then show ?thesis ..
  qed
qed

text \<open>The value of \<open>rnd_pos\<close> from a scale.\<close>

lemma rnd_pos_hi:
  assumes "2 ^ 52 \<le> x / 2 ^ n" and "x / 2 ^ n < 2 ^ 53"
  shows "rnd_pos x = of_int (round_half_even (x / 2 ^ n)) * 2 ^ n"
proof -
  from assms(1) have "2 ^ 52 * 2 ^ n \<le> x" by (simp add: field_simps)
  moreover have "(2::real) ^ 52 * 1 \<le> 2 ^ 52 * 2 ^ n" by (intro mult_left_mono) simp_all
  ultimately have "2 ^ 52 \<le> x" by linarith
  with rnd_hi_form[OF assms] show ?thesis by (simp add: rnd_pos_def)
qed

lemma rnd_pos_lo:
  assumes "0 < x" and "n \<le> 1074" and "x * 2 ^ n < 2 ^ 53" and "2 ^ 52 \<le> x * 2 ^ n \<or> n = 1074"
  shows "rnd_pos x = of_int (round_half_even (x * 2 ^ n)) / 2 ^ n"
proof (cases "2 ^ 52 \<le> x")
  case True
  have "n = 0"
  proof (rule ccontr)
    assume "n \<noteq> 0"
    then obtain m where "n = Suc m" by (cases n) auto
    then have "x * 2 \<le> x * 2 ^ n" using assms(1) by simp
    with True assms(3) show False by simp
  qed
  with True assms(3) rnd_hi_form[of x 0] show ?thesis by (simp add: rnd_pos_def)
next
  case False
  with rnd_lo_form[of 0 n x] assms show ?thesis by (simp add: rnd_pos_def)
qed

text \<open>A float is rounded to itself: \<open>rnd64\<close> is idempotent.\<close>

lemma rnd_pos_fix_hi:
  assumes "2 ^ 52 \<le> m" and "m \<le> 2 ^ 53"
  shows "rnd_pos (of_int m * 2 ^ n) = of_int m * 2 ^ n"
proof (cases "m = 2 ^ 53")
  case True
  have "rnd_pos (of_int m * 2 ^ n) = of_int (round_half_even (of_int m * 2 ^ n / 2 ^ Suc n)) * 2 ^ Suc n"
    by (rule rnd_pos_hi) (simp_all add: True)
  also have "of_int m * 2 ^ n / 2 ^ Suc n = (of_int (2 ^ 52) :: real)" by (simp add: True)
  finally show ?thesis by (simp only: round_half_even_of_int) (simp add: True)
next
  case False
  with assms(2) have lt: "m < 2 ^ 53" by simp
  have e: "of_int m * 2 ^ n / 2 ^ n = (of_int m :: real)" by simp
  have "rnd_pos (of_int m * 2 ^ n) = of_int (round_half_even (of_int m * 2 ^ n / 2 ^ n)) * 2 ^ n"
  proof (rule rnd_pos_hi)
    show "2 ^ 52 \<le> real_of_int m * 2 ^ n / 2 ^ n"
      unfolding e using assms(1) by (metis of_int_le_iff of_int_numeral of_int_power)
    show "real_of_int m * 2 ^ n / 2 ^ n < 2 ^ 53"
      unfolding e using lt by (metis of_int_less_iff of_int_numeral of_int_power)
  qed
  then show ?thesis unfolding e by (simp only: round_half_even_of_int)
qed

lemma rnd_pos_fix_lo:
  assumes "n \<le> 1074" and "0 < m" and "m \<le> 2 ^ 53" and "2 ^ 52 \<le> m \<or> n = 1074"
  shows "rnd_pos (of_int m / 2 ^ n) = of_int m / 2 ^ n"
proof (cases "m = 2 ^ 53")
  case True
  show ?thesis
  proof (cases n)
    case 0
    have "rnd_pos (of_int m * 2 ^ 0) = of_int m * 2 ^ 0"
      by (rule rnd_pos_fix_hi) (simp_all add: True)
    with 0 show ?thesis by simp
  next
    case (Suc k)
    have e: "of_int m / 2 ^ n * 2 ^ k = (of_int (2 ^ 52) :: real)" by (simp add: Suc True)
    have "rnd_pos (of_int m / 2 ^ n) = of_int (round_half_even (of_int m / 2 ^ n * 2 ^ k)) / 2 ^ k"
    proof (rule rnd_pos_lo)
      show "0 < real_of_int m / 2 ^ n" using assms(2) by simp
      show "k \<le> 1074" using assms(1) Suc by simp
      show "real_of_int m / 2 ^ n * 2 ^ k < 2 ^ 53" unfolding e by simp
      show "2 ^ 52 \<le> real_of_int m / 2 ^ n * 2 ^ k \<or> k = 1074" unfolding e by simp
    qed
    then show ?thesis unfolding e by (simp only: round_half_even_of_int) (simp add: Suc True)
  qed
next
  case False
  with assms(3) have lt: "m < 2 ^ 53" by simp
  have e: "of_int m / 2 ^ n * 2 ^ n = (of_int m :: real)" by simp
  have "rnd_pos (of_int m / 2 ^ n) = of_int (round_half_even (of_int m / 2 ^ n * 2 ^ n)) / 2 ^ n"
  proof (rule rnd_pos_lo)
    show "0 < real_of_int m / 2 ^ n" using assms(2) by simp
    show "n \<le> 1074" by (rule assms(1))
    show "real_of_int m / 2 ^ n * 2 ^ n < 2 ^ 53"
      unfolding e using lt by (metis of_int_less_iff of_int_numeral of_int_power)
    show "2 ^ 52 \<le> real_of_int m / 2 ^ n * 2 ^ n \<or> n = 1074"
      unfolding e using assms(4) by (metis of_int_le_iff of_int_numeral of_int_power)
  qed
  then show ?thesis unfolding e by (simp only: round_half_even_of_int)
qed

text \<open>The shape of a rounded positive number.\<close>

lemma rnd_pos_shape:
  assumes "0 < x"
  shows "(\<exists>n m. rnd_pos x = of_int m * 2 ^ n \<and> 2 ^ 52 \<le> m \<and> m \<le> 2 ^ 53) \<or>
         (\<exists>n m. n \<le> 1074 \<and> rnd_pos x = of_int m / 2 ^ n \<and> 0 \<le> m \<and> m \<le> 2 ^ 53 \<and>
                (2 ^ 52 \<le> m \<or> n = 1074) \<and> \<bar>x * 2 ^ n - of_int m\<bar> \<le> 1 / 2)"
proof (cases "2 ^ 52 \<le> x")
  case True
  from rnd_hi_scale[OF True] obtain n where s: "2 ^ 52 \<le> x / 2 ^ n" "x / 2 ^ n < 2 ^ 53" by blast
  define m where "m = round_half_even (x / 2 ^ n)"
  have v: "rnd_pos x = of_int m * 2 ^ n" unfolding m_def by (rule rnd_pos_hi[OF s])
  have "of_int (2 ^ 52) \<le> x / 2 ^ n" using s(1) by simp
  then have a: "2 ^ 52 \<le> m" unfolding m_def by (rule round_half_even_ge)
  have "x / 2 ^ n \<le> of_int (2 ^ 53)" using s(2) by simp
  then have b: "m \<le> 2 ^ 53" unfolding m_def by (rule round_half_even_le)
  from v a b show ?thesis by blast
next
  case False
  then have "x < 2 ^ 52" by simp
  from rnd_lo_scale[OF assms this, of 0] obtain n where
    s: "n \<le> 1074" "x * 2 ^ n < 2 ^ 53" "2 ^ 52 \<le> x * 2 ^ n \<or> n = 1074" by auto
  define m where "m = round_half_even (x * 2 ^ n)"
  have v: "rnd_pos x = of_int m / 2 ^ n" unfolding m_def by (rule rnd_pos_lo[OF assms s])
  have "of_int 0 \<le> x * 2 ^ n" using assms by simp
  then have a: "0 \<le> m" unfolding m_def by (rule round_half_even_ge)
  have "x * 2 ^ n \<le> of_int (2 ^ 53)" using s(2) by simp
  then have b: "m \<le> 2 ^ 53" unfolding m_def by (rule round_half_even_le)
  have c: "2 ^ 52 \<le> m \<or> n = 1074"
  proof (cases "n = 1074")
    case True
    then show ?thesis ..
  next
    case False
    with s(3) have "of_int (2 ^ 52) \<le> x * 2 ^ n" by simp
    then have "2 ^ 52 \<le> m" unfolding m_def by (rule round_half_even_ge)
    then show ?thesis ..
  qed
  have d: "\<bar>x * 2 ^ n - of_int m\<bar> \<le> 1 / 2"
    using round_half_even_error[of "x * 2 ^ n"] unfolding m_def by (simp add: abs_minus_commute)
  from s(1) v a b c d show ?thesis by blast
qed

lemma rnd_pos_nonneg: "0 < x \<Longrightarrow> 0 \<le> rnd_pos x"
  using rnd_pos_shape[of x] by (auto intro!: mult_nonneg_nonneg divide_nonneg_nonneg)

lemma rnd_pos_idem:
  assumes "0 < x" and "0 < rnd_pos x"
  shows "rnd_pos (rnd_pos x) = rnd_pos x"
proof -
  from rnd_pos_shape[OF assms(1)] consider
    n m where "rnd_pos x = of_int m * 2 ^ n" "2 ^ 52 \<le> m" "m \<le> 2 ^ 53"
  | n m where "n \<le> 1074" "rnd_pos x = of_int m / 2 ^ n" "0 \<le> m" "m \<le> 2 ^ 53" "2 ^ 52 \<le> m \<or> n = 1074"
    by blast
  then show ?thesis
  proof cases
    case 1
    then show ?thesis by (simp add: rnd_pos_fix_hi)
  next
    case 2
    from assms(2) 2(2) have "m \<noteq> 0" by auto
    with 2(3) have "0 < m" by simp
    with 2 show ?thesis by (simp add: rnd_pos_fix_lo)
  qed
qed

lemma rnd64_minus: "rnd64 (- x) = - rnd64 x"
  by (simp add: rnd64_def)

lemma rnd64_pos: "0 < x \<Longrightarrow> rnd64 x = rnd_pos x"
  by (simp add: rnd64_def)

lemma rnd64_nonneg: "0 \<le> x \<Longrightarrow> 0 \<le> rnd64 x"
  by (cases "x = 0") (simp_all add: rnd64_def rnd_pos_nonneg)

lemma rnd64_idem: "rnd64 (rnd64 x) = rnd64 x"
proof -
  have pos: "rnd64 (rnd64 y) = rnd64 y" if "0 < y" for y
  proof (cases "rnd_pos y = 0")
    case True
    with that show ?thesis by (simp add: rnd64_def)
  next
    case False
    with rnd_pos_nonneg[OF that] have "0 < rnd_pos y" by simp
    with that rnd_pos_idem[OF that] show ?thesis by (simp add: rnd64_pos)
  qed
  consider "x = 0" | "0 < x" | "0 < - x" by linarith
  then show ?thesis
  proof cases
    case 1
    then show ?thesis by (simp add: rnd64_def)
  next
    case 2
    then show ?thesis by (rule pos)
  next
    case 3
    from pos[OF 3] have "rnd64 (- rnd64 x) = - rnd64 x" by (simp add: rnd64_minus)
    then show ?thesis by (simp add: rnd64_minus)
  qed
qed

text \<open>
  \<^verbatim>\<open>round(x, 2)\<close> of a float that is itself such a result gives it back.  For the
  float \<open>v\<close> nearest to \<open>k / 100\<close>: where floats are at most \<open>1 / 128\<close> apart, \<open>100 v\<close> is
  within a half of \<open>k\<close>; where they are further apart, the multiple of \<open>1 / 100\<close> nearest
  to \<open>v\<close> is within half a spacing of \<open>v\<close>.
\<close>

lemma round2_fix_int:
  assumes "0 < q" and "rnd_pos q = of_int j"
  shows "rnd64 (of_int (round_half_even (rnd_pos q * 100)) / 100) = rnd_pos q"
proof -
  have "rnd_pos q * 100 = of_int (j * 100)" by (simp add: assms(2))
  then have "of_int (round_half_even (rnd_pos q * 100)) / 100 = rnd_pos q"
    by (simp only: round_half_even_of_int)
  moreover have "rnd64 (rnd_pos q) = rnd_pos q"
    using rnd64_idem[of q] assms(1) by (simp add: rnd64_pos)
  ultimately show ?thesis by simp
qed

lemma round2_fix_pos:
  assumes k: "0 < k"
  shows "rnd64 (of_int (round_half_even (rnd_pos (of_int k / 100) * 100)) / 100) = rnd_pos (of_int k / 100)"
proof -
  define q :: real where "q = of_int k / 100"
  define v where "v = rnd_pos q"
  have q: "0 < q" using k by (simp add: q_def)
  from rnd_pos_shape[OF q] consider
    (hi) n m where "rnd_pos q = of_int m * 2 ^ n"
  | (lo) n m where "n \<le> 1074" "rnd_pos q = of_int m / 2 ^ n" "0 \<le> m" "m \<le> 2 ^ 53"
      "2 ^ 52 \<le> m \<or> n = 1074" "\<bar>q * 2 ^ n - of_int m\<bar> \<le> 1 / 2"
    by blast
  then have "rnd64 (of_int (round_half_even (rnd_pos q * 100)) / 100) = rnd_pos q"
  proof cases
    case hi
    then have "rnd_pos q = of_int (m * 2 ^ n)" by simp
    with q show ?thesis by (rule round2_fix_int)
  next
    case lo
    have p: "(0::real) < 2 ^ n" by simp
    show ?thesis
    proof (cases "7 \<le> n")
      case True
      then have "(2::real) ^ 7 \<le> 2 ^ n" by (intro power_increasing) simp_all
      then have big: "(128::real) \<le> 2 ^ n" by simp
      have kq: "of_int k = q * 100" by (simp add: q_def)
      have "rnd_pos q * 100 - of_int k = (of_int m - q * 2 ^ n) * (100 / 2 ^ n)"
        unfolding lo(2) kq by (simp add: field_simps)
      then have "\<bar>rnd_pos q * 100 - of_int k\<bar> = \<bar>(of_int m - q * 2 ^ n) * (100 / 2 ^ n)\<bar>"
        by (rule arg_cong)
      also have "\<dots> = \<bar>of_int m - q * 2 ^ n\<bar> * (100 / 2 ^ n)"
        by (rule abs_mult_pos[symmetric]) simp
      also have "\<dots> = \<bar>q * 2 ^ n - of_int m\<bar> * (100 / 2 ^ n)"
        by (simp only: abs_minus_commute)
      also have "\<dots> \<le> 1 / 2 * (100 / 2 ^ n)"
        using lo(6) by (intro mult_right_mono) simp_all
      also have "\<dots> = 50 / 2 ^ n" by simp
      also have "\<dots> \<le> 50 / 128" using big by (intro divide_left_mono) simp_all
      finally have "\<bar>rnd_pos q * 100 - of_int k\<bar> < 1 / 2" by simp
      then have "round_half_even (rnd_pos q * 100) = k" by (rule round_half_even_near)
      then show ?thesis using q by (simp add: q_def rnd64_pos)
    next
      case False
      then have n6: "n \<le> 6" by simp
      with lo(5) have m52: "2 ^ 52 \<le> m" by auto
      show ?thesis
      proof (cases "2 ^ n dvd m")
        case True
        then obtain j where "m = 2 ^ n * j" ..
        then have "rnd_pos q = of_int j" by (simp add: lo(2))
        with q show ?thesis by (rule round2_fix_int)
      next
        case False
        have n52: "n \<le> 52" and n53: "n \<le> 53" using n6 by simp_all
        have "(2::int) ^ n dvd 2 ^ 52" using n52 by (rule le_imp_power_dvd)
        moreover have "(2::int) ^ n dvd 2 ^ 53" using n53 by (rule le_imp_power_dvd)
        ultimately have "(2::int) ^ n dvd 2 ^ 52" "(2::int) ^ n dvd 2 ^ 53" by blast+
        with False have "m \<noteq> 2 ^ 52" "m \<noteq> 2 ^ 53" by auto
        with m52 lo(4) have mr: "2 ^ 52 + 1 \<le> m" "m \<le> 2 ^ 53 - 1" by simp_all
        define k' where "k' = round_half_even (rnd_pos q * 100)"
        define y :: real where "y = of_int k' / 100"
        have "(2::real) ^ n \<le> 2 ^ 6" using n6 by (intro power_increasing) simp_all
        then have small: "(2::real) ^ n \<le> 64" by simp
        have e: "\<bar>of_int k' - rnd_pos q * 100\<bar> \<le> 1 / 2"
          unfolding k'_def by (rule round_half_even_error)
        have "y * 2 ^ n - of_int m = (of_int k' - rnd_pos q * 100) * (2 ^ n / 100)"
          by (simp add: y_def lo(2) field_simps)
        then have "\<bar>y * 2 ^ n - of_int m\<bar> = \<bar>(of_int k' - rnd_pos q * 100) * (2 ^ n / 100)\<bar>"
          by (rule arg_cong)
        also have "\<dots> = \<bar>of_int k' - rnd_pos q * 100\<bar> * (2 ^ n / 100)"
          by (rule abs_mult_pos[symmetric]) simp
        also have "\<dots> \<le> 1 / 2 * (2 ^ n / 100)"
          using e by (intro mult_right_mono) simp_all
        also have "\<dots> \<le> 1 / 2 * (64 / 100)"
          using small by (intro mult_left_mono divide_right_mono) simp_all
        finally have d: "\<bar>y * 2 ^ n - of_int m\<bar> \<le> 32 / 100" by simp
        then have near: "\<bar>y * 2 ^ n - of_int m\<bar> < 1 / 2" by simp
        define t where "t = y * 2 ^ n"
        define r :: real where "r = of_int m"
        have d': "\<bar>t - r\<bar> \<le> 32 / 100" using d by (simp add: t_def r_def)
        have "(4503599627370497::int) \<le> m" "m \<le> (9007199254740991::int)" using mr by simp_all
        then have "(of_int 4503599627370497 :: real) \<le> of_int m" "(of_int m :: real) \<le> of_int 9007199254740991"
          by (simp_all only: of_int_le_iff)
        then have mlo': "4503599627370497 \<le> r" and mhi': "r \<le> 9007199254740991"
          by (simp_all add: r_def)
        have "4503599627370496 \<le> t" "t < 9007199254740992"
          using d' mlo' mhi' by linarith+
        then have lo_b: "2 ^ 52 \<le> y * 2 ^ n" and hi_b: "y * 2 ^ n < 2 ^ 53"
          by (simp_all add: t_def)
        have ypos: "0 < y"
        proof -
          have "0 < y * 2 ^ n" using lo_b by (simp add: order.strict_trans2[of 0 "2 ^ 52"])
          then show ?thesis by (simp add: zero_less_mult_iff)
        qed
        have "rnd_pos y = of_int (round_half_even (y * 2 ^ n)) / 2 ^ n"
          using ypos lo(1) hi_b lo_b by (intro rnd_pos_lo) simp_all
        also have "round_half_even (y * 2 ^ n) = m" using near by (rule round_half_even_near)
        finally have "rnd_pos y = rnd_pos q" by (simp add: lo(2))
        with ypos show ?thesis by (simp add: rnd64_pos y_def k'_def)
      qed
    qed
  qed
  then show ?thesis by (simp add: q_def)
qed

lemma round2_fix: "rnd64 (of_int (round_half_even (rnd64 (of_int k / 100) * 100)) / 100) = rnd64 (of_int k / 100)"
proof -
  consider "k = 0" | "0 < k" | "0 < - k" by linarith
  then show ?thesis
  proof cases
    case 1
    then show ?thesis by (simp add: rnd64_def round_half_even_def)
  next
    case 2
    then have "rnd64 (of_int k / 100) = rnd_pos (of_int k / 100)" by (simp add: rnd64_pos)
    with round2_fix_pos[OF 2] show ?thesis by simp
  next
    case 3
    then have p: "rnd64 (of_int (- k) / 100) = rnd_pos (of_int (- k) / 100)" by (simp add: rnd64_pos)
    have m: "rnd64 (of_int k / 100) = - rnd_pos (of_int (- k) / 100)"
      using p rnd64_minus[of "of_int k / 100"] by simp
    have "rnd64 (of_int (round_half_even (- (rnd_pos (of_int (- k) / 100) * 100))) / 100)
        = - rnd64 (of_int (round_half_even (rnd_pos (of_int (- k) / 100) * 100)) / 100)"
      by (simp only: round_half_even_minus of_int_minus minus_divide_left[symmetric] rnd64_minus)
    with round2_fix_pos[OF 3] show ?thesis by (simp add: m)
  qed
qed

lemma round2_round2: "round2 (round2 x) = round2 x"
  by (simp add: round2_def round2_fix)

lemma rnd64_round2: "rnd64 (round2 x) = round2 x"
  by (simp add: round2_def rnd64_idem)

text \<open>The equations that evaluate the rounding of a numeral.\<close>

lemmas rnd_eval = rnd64_def rnd_pos_def rnd_lo.simps rnd_hi.simps round_half_even_def Let_def

section \<open>The body of the loop\<close>

lemma profit_pct_of_eq:
  "profit_pct_of p c =
     Inr (case p of
            None \<Rightarrow> None
          | Some x \<Rightarrow> (case c of
                        None \<Rightarrow> None
                      | Some y \<Rightarrow> if y \<noteq> 0 then Some (round2 (fmul (fdiv x y) 100)) else None))"
  by (simp add: profit_pct_of_def py_div_def bind_err_def split: option.splits)

lemma upside_of_eq:
  "upside_of a p =
     Inr (case a of
            None \<Rightarrow> None
          | Some x \<Rightarrow> (case p of
                        None \<Rightarrow> None
                      | Some y \<Rightarrow> if x \<noteq> 0 \<and> 0 < y then Some (round2 (fmul (fdiv (fsub x y) y) 100)) else None))"
  by (auto simp: upside_of_def py_div_def bind_err_def split: option.splits)

lemma derive_total: "\<exists>d. derive s b p a = Inr d"
  by (simp add: derive_def Let_def profit_pct_of_eq upside_of_eq bind_err_def)

lemma derive_fields:
  assumes "derive s b p a = Inr d"
  shows "current_price d = p" and "analyst_target d = a"
    and "current_value d = value_of p s"
    and "total_cost d = cost_of b s"
    and "profit_dollar d = profit_dollar_of (current_value d) (total_cost d)"
    and "profit_pct_of (profit_dollar d) (total_cost d) = Inr (profit_pct d)"
    and "upside_of (analyst_target d) (current_price d) = Inr (analyst_upside d)"
proof -
  from assms have d: "d = \<lparr>current_price = p, current_value = value_of p s, total_cost = cost_of b s,
      profit_dollar = profit_dollar_of (value_of p s) (cost_of b s),
      profit_pct = (case profit_pct_of (profit_dollar_of (value_of p s) (cost_of b s)) (cost_of b s) of
                      Inr x \<Rightarrow> x | Inl _ \<Rightarrow> None),
      analyst_target = a,
      analyst_upside = (case upside_of a p of Inr x \<Rightarrow> x | Inl _ \<Rightarrow> None)\<rparr>"
    by (auto simp: derive_def Let_def profit_pct_of_eq upside_of_eq bind_err_def)
  show "current_price d = p" "analyst_target d = a" "current_value d = value_of p s"
    "total_cost d = cost_of b s" "profit_dollar d = profit_dollar_of (current_value d) (total_cost d)"
    by (simp_all add: d)
  have "profit_pct_of (profit_dollar_of (value_of p s) (cost_of b s)) (cost_of b s) = Inr (profit_pct d)"
    unfolding d by (simp add: profit_pct_of_eq)
  then show "profit_pct_of (profit_dollar d) (total_cost d) = Inr (profit_pct d)"
    by (simp add: d)
  have "upside_of a p = Inr (analyst_upside d)"
    unfolding d by (simp add: upside_of_eq)
  then show "upside_of (analyst_target d) (current_price d) = Inr (analyst_upside d)"
    by (simp add: d)
qed

lemma process_row_derive:
  assumes "read_row env cols r = Inr (t, s, b, y)"
  shows "process_row env yf cols r =
           bind_err (derive s b (fst (fetch yf t)) (fst (snd (fetch yf t))))
             (\<lambda>d. Inr (d, snd (snd (fetch yf t))))"
  using assms by (simp add: process_row_def split: prod.splits)

lemma process_row_fields:
  assumes "read_row env cols r = Inr (t, s, b, y)" and "process_row env yf cols r = Inr (d, ms)"
  shows "current_value d = value_of (current_price d) s"
    and "total_cost d = cost_of b s"
    and "profit_dollar d = profit_dollar_of (current_value d) (total_cost d)"
    and "profit_pct_of (profit_dollar d) (total_cost d) = Inr (profit_pct d)"
    and "upside_of (analyst_target d) (current_price d) = Inr (analyst_upside d)"
proof -
  from derive_total obtain d' where d': "derive s b (fst (fetch yf t)) (fst (snd (fetch yf t))) = Inr d'"
    by blast
  with assms have "d' = d" by (simp add: process_row_derive bind_err_def)
  with d' have D: "derive s b (fst (fetch yf t)) (fst (snd (fetch yf t))) = Inr d" by simp
  show "current_value d = value_of (current_price d) s"
    using derive_fields(1,3)[OF D] by simp
  show "total_cost d = cost_of b s" by (rule derive_fields(4)[OF D])
  show "profit_dollar d = profit_dollar_of (current_value d) (total_cost d)" by (rule derive_fields(5)[OF D])
  show "profit_pct_of (profit_dollar d) (total_cost d) = Inr (profit_pct d)" by (rule derive_fields(6)[OF D])
  show "upside_of (analyst_target d) (current_price d) = Inr (analyst_upside d)" by (rule derive_fields(7)[OF D])
qed

lemma read_row_base:
  "read_row env base_columns [ct, Num s, Num b, cy] =
     (case float_notna env cy of Inl e \<Rightarrow> Inl e | Inr y \<Rightarrow> Inr (ticker_of env ct, rnd64 s, rnd64 b, y))"
  by (simp add: read_row_def base_columns_def row_get_def bind_err_def or_zero_def split: sum.splits)

lemma read_row_cells:
  assumes "read_row env cols r = Inr (t, s, b, y)"
    and "row_get cols r ''Shares'' = Inr cs" and "row_get cols r ''Buy Price ($)'' = Inr cb"
  shows "(\<not> notna cs \<longrightarrow> s = 0) \<and> (\<not> notna cb \<longrightarrow> b = 0)"
  using assms by (cases cs; cases cb) (auto simp: read_row_def bind_err_def or_zero_def split: sum.splits)

lemma upper_strip_AAPL: "upper (strip ''AAPL'') = ''AAPL''"
  by (simp add: upper_def strip_def is_space_def upper_char_def)

lemma upper_strip_aapl: "upper (strip '' aapl '') = ''AAPL''"
  by (simp add: upper_def strip_def is_space_def upper_char_def)

lemma upper_strip_XYZ: "upper (strip ''XYZ'') = ''XYZ''"
  by (simp add: upper_def strip_def is_space_def upper_char_def)

lemma upper_strip_BADTICKER: "upper (strip ''BADTICKER'') = ''BADTICKER''"
  by (simp add: upper_def strip_def is_space_def upper_char_def)

text \<open>Floats that the examples use.\<close>

lemma rnd64_examples:
  "rnd64 1 = 1" "rnd64 2 = 2" "rnd64 5 = 5" "rnd64 10 = 10" "rnd64 40 = 40" "rnd64 50 = 50"
  "rnd64 150 = 150" "rnd64 180 = 180" "rnd64 200 = 200" "rnd64 220 = 220" "rnd64 500 = 500"
  "rnd64 (5 / 2) = 5 / 2" "rnd64 (183 / 4) = 183 / 4"
  by (simp_all add: rnd_eval)

lemma round2_examples:
  "round2 10 = 10" "round2 40 = 40" "round2 200 = 200" "round2 220 = 220" "round2 500 = 500"
  "round2 (183 / 4) = 183 / 4"
  by (simp_all add: round2_def rnd_eval)

section \<open>Per-row values\<close>

text \<open>
  Claim C7.  In a row that the loop reads as shares \<open>s\<close>, the current value is
  \<^verbatim>\<open>round(currentPrice * shares, 2)\<close>, the float product rounded to two decimals, when
  the current price is present and nonzero and the shares are nonzero, and is absent
  otherwise.
\<close>

theorem current_value_exact:
  assumes "read_row env cols r = Inr (t, s, b, y)" and "process_row env yf cols r = Inr (d, ms)"
  shows "(\<forall>p. current_price d = Some p \<and> p \<noteq> 0 \<and> s \<noteq> 0 \<longrightarrow> current_value d = Some (round2 (fmul p s))) \<and>
         (current_price d = None \<or> current_price d = Some 0 \<or> s = 0 \<longrightarrow> current_value d = None)"
  using process_row_fields(1)[OF assms] by (auto simp: value_of_def split: option.splits)

text \<open>
  2.5 shares at a price of 1.27: the product of the two floats is the float below 3.175,
  and the current value is the float 3.17, not 3.18.
\<close>

theorem current_value_exact_witness:
  "read_row plain_env base_columns [Str ''AAPL'', Num (5 / 2), Num 1, PyNone] = Inr (''AAPL'', 5 / 2, 1, None) \<and>
   (\<exists>d. process_row plain_env (\<lambda>_. Inr \<lparr>currentPrice = Some (127 / 100), regularMarketPrice = None, targetMeanPrice = None\<rparr>)
           base_columns [Str ''AAPL'', Num (5 / 2), Num 1, PyNone] = Inr (d, []) \<and>
        current_price d = Some (rnd64 (127 / 100)) \<and>
        fmul (rnd64 (127 / 100)) (5 / 2) = 3574732204225331 / 2 ^ 50 \<and>
        current_value d = Some (rnd64 (317 / 100)) \<and>
        current_value d \<noteq> Some (rnd64 (318 / 100)))"
proof -
  let ?yf = "\<lambda>_. Inr \<lparr>currentPrice = Some (127 / 100), regularMarketPrice = None, targetMeanPrice = None\<rparr>"
  let ?r = "[Str ''AAPL'', Num (5 / 2), Num 1, PyNone]"
  have R: "read_row plain_env base_columns ?r = Inr (''AAPL'', 5 / 2, 1, None)"
    by (simp add: read_row_base upper_strip_AAPL rnd64_examples)
  have p: "round2 (rnd64 (127 / 100)) = rnd64 (127 / 100)" "rnd64 (127 / 100) \<noteq> 0"
    by (simp_all add: round2_def rnd_eval)
  have F: "fetch ?yf ''AAPL'' = (Some (rnd64 (127 / 100)), None, [])"
    by (simp add: fetch_def py_or_def round2_if_def as_float_def p)
  from derive_total obtain d where D: "derive (5 / 2) 1 (Some (rnd64 (127 / 100))) None = Inr d"
    by blast
  have P: "process_row plain_env ?yf base_columns ?r = Inr (d, [])"
    by (simp add: process_row_derive[OF R] F D bind_err_def)
  have c: "current_price d = Some (rnd64 (127 / 100))" by (rule derive_fields(1)[OF D])
  have m: "fmul (rnd64 (127 / 100)) (5 / 2) = 3574732204225331 / 2 ^ 50"
    by (simp add: fmul_def rnd_eval)
  have v: "round2 (fmul (rnd64 (127 / 100)) (5 / 2)) = rnd64 (317 / 100)"
    unfolding m by (simp add: round2_def rnd_eval)
  have n: "rnd64 (317 / 100) \<noteq> rnd64 (318 / 100)" by (simp add: rnd_eval)
  from current_value_exact[OF R P] c p(2) have "current_value d = Some (round2 (fmul (rnd64 (127 / 100)) (5 / 2)))"
    by simp
  with v n have "current_value d = Some (rnd64 (317 / 100))" "current_value d \<noteq> Some (rnd64 (318 / 100))"
    by simp_all
  with R P c m show ?thesis by blast
qed

text \<open>
  Claim C3.  A row whose shares or buy price is zero, or whose Shares or Buy Price cell is
  missing, has no total cost, no profit and no profit percentage, whatever the provider
  answers.
\<close>

theorem zero_cost_absent:
  assumes "read_row env cols r = Inr (t, s, b, y)" and "process_row env yf cols r = Inr (d, ms)"
    and "row_get cols r ''Shares'' = Inr cs" and "row_get cols r ''Buy Price ($)'' = Inr cb"
    and "s = 0 \<or> b = 0 \<or> cs = NA \<or> cb = NA \<or> cs = PyNone \<or> cb = PyNone"
  shows "total_cost d = None \<and> profit_dollar d = None \<and> profit_pct d = None"
proof -
  from read_row_cells[OF assms(1,3,4)] assms(5) have z: "s = 0 \<or> b = 0" by auto
  have c: "total_cost d = None"
    using process_row_fields(2)[OF assms(1,2)] z by (auto simp: cost_of_def)
  have p: "profit_dollar d = None"
    using process_row_fields(3)[OF assms(1,2)] c by (simp add: profit_dollar_of_def split: option.splits)
  have "profit_pct d = None"
    using process_row_fields(4)[OF assms(1,2)] p by (simp add: profit_pct_of_def)
  with c p show ?thesis by simp
qed

text \<open>The scenario row XYZ with 5 shares, no buy price and a current price of 10.\<close>

theorem zero_cost_absent_witness:
  "read_row plain_env base_columns [Str ''XYZ'', Num 5, NA, NA] = Inr (''XYZ'', 5, 0, None) \<and>
   (\<exists>d. process_row plain_env (\<lambda>_. Inr \<lparr>currentPrice = Some 10, regularMarketPrice = None, targetMeanPrice = None\<rparr>)
           base_columns [Str ''XYZ'', Num 5, NA, NA] = Inr (d, []) \<and>
        current_price d = Some 10 \<and> total_cost d = None \<and> profit_dollar d = None \<and> profit_pct d = None)"
proof -
  let ?yf = "\<lambda>_. Inr \<lparr>currentPrice = Some 10, regularMarketPrice = None, targetMeanPrice = None\<rparr>"
  let ?r = "[Str ''XYZ'', Num 5, NA, NA]"
  have R: "read_row plain_env base_columns ?r = Inr (''XYZ'', 5, 0, None)"
    by (simp add: read_row_def base_columns_def row_get_def bind_err_def or_zero_def upper_strip_XYZ
        rnd64_examples)
  have F: "fetch ?yf ''XYZ'' = (Some 10, None, [])"
    by (simp add: fetch_def py_or_def round2_if_def as_float_def rnd64_examples round2_examples)
  from derive_total obtain d where D: "derive 5 0 (Some 10) None = Inr d" by blast
  have P: "process_row plain_env ?yf base_columns ?r = Inr (d, [])"
    by (simp add: process_row_derive[OF R] F D bind_err_def)
  have S: "row_get base_columns ?r ''Shares'' = Inr (Num 5)"
    by (simp add: row_get_def base_columns_def)
  have B: "row_get base_columns ?r ''Buy Price ($)'' = Inr NA"
    by (simp add: row_get_def base_columns_def)
  have C: "current_price d = Some 10" by (rule derive_fields(1)[OF D])
  from zero_cost_absent[OF R P S B] R P C show ?thesis by blast
qed

text \<open>
  Claim C1, as the program has it.  The profit percentage is absent when the total cost is
  absent or zero or the profit is absent, and is \<^verbatim>\<open>round(profitAbs / totalCost * 100, 2)\<close>
  in float arithmetic otherwise; for 10 shares bought at 150 and priced at 200 it is the
  float 33.33.
\<close>

theorem profit_pct_guarded:
  assumes "read_row env cols r = Inr (t, s, b, y)" and "process_row env yf cols r = Inr (d, ms)"
  shows "(total_cost d = None \<or> total_cost d = Some 0 \<or> profit_dollar d = None \<longrightarrow> profit_pct d = None) \<and>
         (\<forall>p c. profit_dollar d = Some p \<and> total_cost d = Some c \<and> c \<noteq> 0 \<longrightarrow>
                profit_pct d = Some (round2 (fmul (fdiv p c) 100))) \<and>
         (s = 10 \<and> b = 150 \<and> current_price d = Some 200 \<longrightarrow>
            total_cost d = Some 1500 \<and> current_value d = Some 2000 \<and> profit_dollar d = Some 500 \<and>
            profit_pct d = Some (rnd64 (3333 / 100)))"
proof -
  have r1: "round2 (fmul 150 10) = 1500" "round2 (fmul 200 10) = 2000" "round2 (fsub 2000 1500) = 500"
    by (simp_all add: round2_def fmul_def fsub_def rnd_eval)
  have r2: "round2 (fmul (fdiv 500 1500) 100) = rnd64 (3333 / 100)"
    by (simp add: round2_def fmul_def fdiv_def rnd_eval)
  note pct = process_row_fields(4)[OF assms, unfolded profit_pct_of_eq, simplified]
  have a: "total_cost d = None \<or> total_cost d = Some 0 \<or> profit_dollar d = None \<longrightarrow> profit_pct d = None"
    using pct by (auto split: option.splits)
  have b: "\<forall>p c. profit_dollar d = Some p \<and> total_cost d = Some c \<and> c \<noteq> 0 \<longrightarrow>
                profit_pct d = Some (round2 (fmul (fdiv p c) 100))"
    using pct by auto
  have c: "s = 10 \<and> b = 150 \<and> current_price d = Some 200 \<longrightarrow>
            total_cost d = Some 1500 \<and> current_value d = Some 2000 \<and> profit_dollar d = Some 500 \<and>
            profit_pct d = Some (rnd64 (3333 / 100))"
  proof
    assume h: "s = 10 \<and> b = 150 \<and> current_price d = Some 200"
    have v: "current_value d = Some 2000"
      using process_row_fields(1)[OF assms] h r1 by (simp add: value_of_def)
    have k: "total_cost d = Some 1500"
      using process_row_fields(2)[OF assms] h r1 by (simp add: cost_of_def)
    have p: "profit_dollar d = Some 500"
      using process_row_fields(3)[OF assms] v k r1 by (simp add: profit_dollar_of_def)
    have "profit_pct d = Some (rnd64 (3333 / 100))"
      using b p k r2 by simp
    with v k p show "total_cost d = Some 1500 \<and> current_value d = Some 2000 \<and> profit_dollar d = Some 500 \<and>
            profit_pct d = Some (rnd64 (3333 / 100))" by simp
  qed
  from a b c show ?thesis by blast
qed

text \<open>
  One share bought at 40 and priced at 45.75: the profit is 5.75, the float quotient
  5.75 / 40 times 100 is the float below 14.375, and the percentage is the float 14.37,
  not 14.38.
\<close>

theorem profit_pct_guarded_witness:
  "read_row plain_env base_columns [Str ''AAPL'', Num 1, Num 40, PyNone] = Inr (''AAPL'', 1, 40, None) \<and>
   (\<exists>d. process_row plain_env (\<lambda>_. Inr \<lparr>currentPrice = Some (183 / 4), regularMarketPrice = None, targetMeanPrice = None\<rparr>)
           base_columns [Str ''AAPL'', Num 1, Num 40, PyNone] = Inr (d, []) \<and>
        total_cost d = Some 40 \<and> profit_dollar d = Some (23 / 4) \<and>
        fmul (fdiv (23 / 4) 40) 100 = 8092405580431359 / 2 ^ 49 \<and>
        profit_pct d = Some (rnd64 (1437 / 100)) \<and>
        profit_pct d \<noteq> Some (rnd64 (1438 / 100)))"
proof -
  let ?yf = "\<lambda>_. Inr \<lparr>currentPrice = Some (183 / 4), regularMarketPrice = None, targetMeanPrice = None\<rparr>"
  let ?r = "[Str ''AAPL'', Num 1, Num 40, PyNone]"
  have R: "read_row plain_env base_columns ?r = Inr (''AAPL'', 1, 40, None)"
    by (simp add: read_row_base upper_strip_AAPL rnd64_examples)
  have F: "fetch ?yf ''AAPL'' = (Some (183 / 4), None, [])"
    by (simp add: fetch_def py_or_def round2_if_def as_float_def rnd64_examples round2_examples)
  from derive_total obtain d where D: "derive 1 40 (Some (183 / 4)) None = Inr d" by blast
  have P: "process_row plain_env ?yf base_columns ?r = Inr (d, [])"
    by (simp add: process_row_derive[OF R] F D bind_err_def)
  have n: "round2 (fmul (183 / 4) 1) = 183 / 4" "round2 (fmul 40 1) = 40"
    "round2 (fsub (183 / 4) 40) = 23 / 4"
    by (simp_all add: round2_def fmul_def fsub_def rnd_eval)
  have k: "total_cost d = Some 40"
    using derive_fields(4)[OF D] n by (simp add: cost_of_def)
  have v: "current_value d = Some (183 / 4)"
    using derive_fields(3)[OF D] n by (simp add: value_of_def)
  have p: "profit_dollar d = Some (23 / 4)"
    using derive_fields(5)[OF D] k v n by (simp add: profit_dollar_of_def)
  have m: "fmul (fdiv (23 / 4) 40) 100 = 8092405580431359 / 2 ^ 49"
    by (simp add: fmul_def fdiv_def rnd_eval)
  have q: "round2 (fmul (fdiv (23 / 4) 40) 100) = rnd64 (1437 / 100)"
    unfolding m by (simp add: round2_def rnd_eval)
  have ne: "rnd64 (1437 / 100) \<noteq> rnd64 (1438 / 100)" by (simp add: rnd_eval)
  from profit_pct_guarded[OF R P] p k have "profit_pct d = Some (round2 (fmul (fdiv (23 / 4) 40) 100))"
    by simp
  with q ne have "profit_pct d = Some (rnd64 (1437 / 100))" "profit_pct d \<noteq> Some (rnd64 (1438 / 100))"
    by simp_all
  with R P k p m show ?thesis by blast
qed

text \<open>
  Claim C1 as stated fails where the total cost is present and nonzero and there is no
  current value: 10 shares bought at 150 with a provider that raises have a total cost of
  1500 and no profit percentage.
\<close>

theorem profit_pct_counterexample:
  "process_row plain_env (\<lambda>_. Inl ''no data'') base_columns [Str ''AAPL'', Num 10, Num 150, PyNone] =
     Inr (\<lparr>current_price = None, current_value = None, total_cost = Some 1500, profit_dollar = None,
           profit_pct = None, analyst_target = None, analyst_upside = None\<rparr>,
          [St_error ''Error fetching AAPL: no data''])"
proof -
  have R: "read_row plain_env base_columns [Str ''AAPL'', Num 10, Num 150, PyNone] = Inr (''AAPL'', 10, 150, None)"
    by (simp add: read_row_base upper_strip_AAPL rnd64_examples)
  have r1: "round2 (fmul 150 10) = 1500" by (simp add: round2_def fmul_def rnd_eval)
  show ?thesis
    using r1 by (simp add: process_row_derive[OF R] fetch_def derive_def Let_def cost_of_def value_of_def
        profit_dollar_of_def profit_pct_of_def upside_of_def bind_err_def)
qed

text \<open>
  Claim C6, as the program has it.  The analyst upside is
  \<^verbatim>\<open>round((analystTarget - currentPrice) / currentPrice * 100, 2)\<close> in float arithmetic
  when both are present, the analyst target is nonzero and the current price is positive,
  and is absent otherwise.
\<close>

theorem upside_guarded:
  assumes "read_row env cols r = Inr (t, s, b, y)" and "process_row env yf cols r = Inr (d, ms)"
  shows "(\<forall>a p. analyst_target d = Some a \<and> current_price d = Some p \<and> a \<noteq> 0 \<and> 0 < p \<longrightarrow>
                analyst_upside d = Some (round2 (fmul (fdiv (fsub a p) p) 100))) \<and>
         (analyst_target d = None \<or> analyst_target d = Some 0 \<or> current_price d = None \<or>
          (\<exists>p. current_price d = Some p \<and> p \<le> 0) \<longrightarrow> analyst_upside d = None)"
  using process_row_fields(5)[OF assms, unfolded upside_of_eq, simplified]
  by (auto split: option.splits)

text \<open>
  A price of 40 and an analyst target of 45.75: the float quotient 5.75 / 40 times 100 is
  the float below 14.375, and the upside is the float 14.37, not 14.38.
\<close>

theorem upside_guarded_witness:
  "read_row plain_env base_columns [Str ''AAPL'', Num 10, Num 150, PyNone] = Inr (''AAPL'', 10, 150, None) \<and>
   (\<exists>d. process_row plain_env (\<lambda>_. Inr \<lparr>currentPrice = Some 40, regularMarketPrice = None, targetMeanPrice = Some (183 / 4)\<rparr>)
           base_columns [Str ''AAPL'', Num 10, Num 150, PyNone] = Inr (d, []) \<and>
        analyst_target d = Some (183 / 4) \<and> current_price d = Some 40 \<and>
        analyst_upside d = Some (rnd64 (1437 / 100)) \<and>
        analyst_upside d \<noteq> Some (rnd64 (1438 / 100)))"
proof -
  let ?yf = "\<lambda>_. Inr \<lparr>currentPrice = Some 40, regularMarketPrice = None, targetMeanPrice = Some (183 / 4)\<rparr>"
  let ?r = "[Str ''AAPL'', Num 10, Num 150, PyNone]"
  have R: "read_row plain_env base_columns ?r = Inr (''AAPL'', 10, 150, None)"
    by (simp add: read_row_base upper_strip_AAPL rnd64_examples)
  have F: "fetch ?yf ''AAPL'' = (Some 40, Some (183 / 4), [])"
    by (simp add: fetch_def py_or_def round2_if_def as_float_def rnd64_examples round2_examples)
  from derive_total obtain d where D: "derive 10 150 (Some 40) (Some (183 / 4)) = Inr d" by blast
  have P: "process_row plain_env ?yf base_columns ?r = Inr (d, [])"
    by (simp add: process_row_derive[OF R] F D bind_err_def)
  have C: "current_price d = Some 40" "analyst_target d = Some (183 / 4)"
    by (rule derive_fields(1)[OF D], rule derive_fields(2)[OF D])
  have q: "round2 (fmul (fdiv (fsub (183 / 4) 40) 40) 100) = rnd64 (1437 / 100)"
    by (simp add: round2_def fmul_def fdiv_def fsub_def rnd_eval)
  have ne: "rnd64 (1437 / 100) \<noteq> rnd64 (1438 / 100)" by (simp add: rnd_eval)
  from upside_guarded[OF R P] C have "analyst_upside d = Some (round2 (fmul (fdiv (fsub (183 / 4) 40) 40) 100))"
    by simp
  with q ne have "analyst_upside d = Some (rnd64 (1437 / 100))" "analyst_upside d \<noteq> Some (rnd64 (1438 / 100))"
    by simp_all
  with R P C show ?thesis by blast
qed

text \<open>
  Claim C6 as stated fails for an analyst target that is present and zero: a mean target of
  0.004 is rounded to 0.0 and appended as the row's analyst target, the current price 10 is
  present and positive, and the upside is absent.
\<close>

theorem upside_counterexample:
  "process_row plain_env (\<lambda>_. Inr \<lparr>currentPrice = Some 10, regularMarketPrice = None, targetMeanPrice = Some (1 / 250)\<rparr>)
     base_columns [Str ''AAPL'', Num 10, Num 150, PyNone] =
     Inr (\<lparr>current_price = Some 10, current_value = Some 100, total_cost = Some 1500,
           profit_dollar = Some (- 1400), profit_pct = Some (rnd64 (- 9333 / 100)),
           analyst_target = Some 0, analyst_upside = None\<rparr>, [])"
proof -
  have R: "read_row plain_env base_columns [Str ''AAPL'', Num 10, Num 150, PyNone] = Inr (''AAPL'', 10, 150, None)"
    by (simp add: read_row_base upper_strip_AAPL rnd64_examples)
  have t: "rnd64 (1 / 250) \<noteq> 0" "round2 (rnd64 (1 / 250)) = 0"
    by (simp_all add: round2_def rnd_eval)
  have F: "fetch (\<lambda>_. Inr \<lparr>currentPrice = Some 10, regularMarketPrice = None, targetMeanPrice = Some (1 / 250)\<rparr>) ''AAPL''
             = (Some 10, Some 0, [])"
    by (simp add: fetch_def py_or_def round2_if_def as_float_def rnd64_examples round2_examples t)
  have n: "round2 (fmul 10 10) = 100" "round2 (fmul 150 10) = 1500" "round2 (fsub 100 1500) = - 1400"
    "round2 (fmul (fdiv (- 1400) 1500) 100) = rnd64 (- 9333 / 100)"
    by (simp_all add: round2_def fmul_def fsub_def fdiv_def rnd_eval)
  have D: "derive 10 150 (Some 10) (Some 0) =
     Inr \<lparr>current_price = Some 10, current_value = Some 100, total_cost = Some 1500,
           profit_dollar = Some (- 1400), profit_pct = Some (rnd64 (- 9333 / 100)),
           analyst_target = Some 0, analyst_upside = None\<rparr>"
    by (simp add: derive_def Let_def value_of_def cost_of_def profit_dollar_of_def profit_pct_of_eq
        upside_of_eq bind_err_def n)
  show ?thesis
    unfolding process_row_derive[OF R] F by (simp add: D bind_err_def)
qed

text \<open>
  Claim C10.  There are rows with positive shares and positive buy price whose total cost
  is present and 0 (0.01 shares at 0.01 round to 0.00); in every such row the profit equals
  the current value, present when that is present, and the profit percentage is absent.
\<close>

theorem rounded_zero_cost:
  "(\<exists>r t s b y d ms. read_row env base_columns r = Inr (t, s, b, y) \<and> 0 < s \<and> 0 < b \<and>
       process_row env yf base_columns r = Inr (d, ms) \<and> total_cost d = Some 0) \<and>
   (\<forall>cols r t s b y d ms. read_row env cols r = Inr (t, s, b, y) \<and> 0 < s \<and> 0 < b \<and>
       process_row env yf cols r = Inr (d, ms) \<and> total_cost d = Some 0 \<longrightarrow>
       profit_dollar d = current_value d \<and> profit_pct d = None)"
proof
  let ?r = "[NA, Num (1 / 100), Num (1 / 100), NA]"
  let ?s = "rnd64 (1 / 100)"
  have R: "read_row env base_columns ?r = Inr ([], ?s, ?s, None)"
    by (simp add: read_row_base)
  have pos: "0 < ?s" by (simp add: rnd_eval)
  have c: "cost_of ?s ?s = Some 0"
    by (simp add: cost_of_def round2_def fmul_def rnd_eval)
  from derive_total obtain d where D: "derive ?s ?s (fst (fetch yf [])) (fst (snd (fetch yf []))) = Inr d"
    by blast
  have P: "process_row env yf base_columns ?r = Inr (d, snd (snd (fetch yf [])))"
    by (simp add: process_row_derive[OF R] D bind_err_def)
  have "total_cost d = Some 0" using derive_fields(4)[OF D] c by simp
  with R pos P
  show "\<exists>r t s b y d ms. read_row env base_columns r = Inr (t, s, b, y) \<and> 0 < s \<and> 0 < b \<and>
       process_row env yf base_columns r = Inr (d, ms) \<and> total_cost d = Some 0"
    by blast
next
  show "\<forall>cols r t s b y d ms. read_row env cols r = Inr (t, s, b, y) \<and> 0 < s \<and> 0 < b \<and>
       process_row env yf cols r = Inr (d, ms) \<and> total_cost d = Some 0 \<longrightarrow>
       profit_dollar d = current_value d \<and> profit_pct d = None"
  proof (intro allI impI)
    fix cols r t s b y d ms
    assume h: "read_row env cols r = Inr (t, s, b, y) \<and> 0 < s \<and> 0 < b \<and>
       process_row env yf cols r = Inr (d, ms) \<and> total_cost d = Some 0"
    then have R: "read_row env cols r = Inr (t, s, b, y)" and P: "process_row env yf cols r = Inr (d, ms)"
      and z: "total_cost d = Some 0" by simp_all
    have v: "current_value d = None \<or> (\<exists>x. current_value d = Some (round2 x))"
      using process_row_fields(1)[OF R P] by (auto simp: value_of_def split: option.splits)
    have p: "profit_dollar d = current_value d"
      using process_row_fields(3)[OF R P] z v
      by (auto simp: profit_dollar_of_def fsub_def rnd64_round2 round2_round2)
    have "profit_pct d = None"
      using process_row_fields(4)[OF R P] z by (simp add: profit_pct_of_def split: option.splits)
    with p show "profit_dollar d = current_value d \<and> profit_pct d = None" by simp
  qed
qed

text \<open>The row of 0.01 shares bought at 0.01 and priced at 500: value 5, cost 0, profit 5.\<close>

theorem rounded_zero_cost_witness:
  "read_row plain_env base_columns [Str ''AAPL'', Num (1 / 100), Num (1 / 100), PyNone] =
     Inr (''AAPL'', rnd64 (1 / 100), rnd64 (1 / 100), None) \<and> 0 < rnd64 (1 / 100) \<and>
   (\<exists>d. process_row plain_env (\<lambda>_. Inr \<lparr>currentPrice = Some 500, regularMarketPrice = None, targetMeanPrice = None\<rparr>)
           base_columns [Str ''AAPL'', Num (1 / 100), Num (1 / 100), PyNone] = Inr (d, []) \<and>
        total_cost d = Some 0 \<and> current_value d = Some 5 \<and> profit_dollar d = Some 5 \<and> profit_pct d = None)"
proof -
  let ?yf = "\<lambda>_. Inr \<lparr>currentPrice = Some 500, regularMarketPrice = None, targetMeanPrice = None\<rparr>"
  let ?r = "[Str ''AAPL'', Num (1 / 100), Num (1 / 100), PyNone]"
  let ?s = "rnd64 (1 / 100)"
  have R: "read_row plain_env base_columns ?r = Inr (''AAPL'', ?s, ?s, None)"
    by (simp add: read_row_base upper_strip_AAPL)
  have pos: "0 < ?s" by (simp add: rnd_eval)
  have F: "fetch ?yf ''AAPL'' = (Some 500, None, [])"
    by (simp add: fetch_def py_or_def round2_if_def as_float_def rnd64_examples round2_examples)
  from derive_total obtain d where D: "derive ?s ?s (Some 500) None = Inr d" by blast
  have P: "process_row plain_env ?yf base_columns ?r = Inr (d, [])"
    by (simp add: process_row_derive[OF R] F D bind_err_def)
  have n: "round2 (fmul ?s ?s) = 0" "round2 (fmul 500 ?s) = 5" "?s \<noteq> 0"
    by (simp_all add: round2_def fmul_def rnd_eval)
  have c: "total_cost d = Some 0"
    using derive_fields(4)[OF D] n by (simp add: cost_of_def)
  have v: "current_value d = Some 5"
    using derive_fields(3)[OF D] n by (simp add: value_of_def)
  from rounded_zero_cost[of plain_env ?yf] R pos P c
  have "profit_dollar d = current_value d \<and> profit_pct d = None" by blast
  with R pos P c v show ?thesis by auto
qed

section \<open>The loop\<close>

lemma process_row_total:
  assumes "read_row env cols r = Inr (t, s, b, y)"
  shows "\<exists>d m. process_row env yf cols r = Inr (d, m)"
proof -
  from derive_total obtain d where "derive s b (fst (fetch yf t)) (fst (snd (fetch yf t))) = Inr d"
    by blast
  then show ?thesis by (simp add: process_row_derive[OF assms] bind_err_def)
qed

lemma refresh_loop_total:
  "\<forall>r \<in> set rs. \<exists>x. read_row env cols r = Inr x \<Longrightarrow> \<exists>ms ds. refresh_loop env yf cols rs = (ms, Inr ds)"
proof (induction rs)
  case Nil
  then show ?case by simp
next
  case (Cons r rs)
  then obtain ms ds where l: "refresh_loop env yf cols rs = (ms, Inr ds)" by auto
  from Cons.prems obtain t s b y where "read_row env cols r = Inr (t, s, b, y)"
    by (metis list.set_intros(1) prod_cases4)
  then have "\<exists>d m. process_row env yf cols r = Inr (d, m)"
    by (rule process_row_total)
  with l show ?case by auto
qed

lemma refresh_loop_rows:
  "refresh_loop env yf cols rs = (ms, Inr ds) \<Longrightarrow>
     length ds = length rs \<and>
     (\<forall>j < length rs. \<exists>m. process_row env yf cols (rs ! j) = Inr (ds ! j, m) \<and> set m \<subseteq> set ms)"
proof (induction rs arbitrary: ms ds)
  case Nil
  then show ?case by simp
next
  case (Cons r rs)
  from Cons.prems obtain d m ms' ds' where
    p: "process_row env yf cols r = Inr (d, m)" and
    l: "refresh_loop env yf cols rs = (ms', Inr ds')" and
    e: "ms = m @ ms'" "ds = d # ds'"
    by (auto split: sum.splits prod.splits)
  from Cons.IH[OF l] have len: "length ds' = length rs"
    and ih: "\<forall>j < length rs. \<exists>m. process_row env yf cols (rs ! j) = Inr (ds' ! j, m) \<and> set m \<subseteq> set ms'"
    by simp_all
  have "\<exists>m'. process_row env yf cols ((r # rs) ! j) = Inr (ds ! j, m') \<and> set m' \<subseteq> set ms"
    if "j < length (r # rs)" for j
  proof (cases j)
    case 0
    with p e show ?thesis by auto
  next
    case (Suc k)
    with that have "k < length rs" by simp
    with ih obtain m' where "process_row env yf cols (rs ! k) = Inr (ds' ! k, m')" "set m' \<subseteq> set ms'"
      by blast
    with Suc e show ?thesis by auto
  qed
  with len e show ?case by simp
qed

lemma derive_unpriced:
  "derive s b None None =
     Inr \<lparr>current_price = None, current_value = None, total_cost = cost_of b s, profit_dollar = None,
          profit_pct = None, analyst_target = None, analyst_upside = None\<rparr>"
  by (simp add: derive_def Let_def value_of_def profit_dollar_of_def profit_pct_of_def upside_of_def
      bind_err_def)

lemma process_row_failed:
  assumes "read_row env cols r = Inr (t, s, b, y)" and "t \<noteq> []" and "yf t = Inl e"
  shows "process_row env yf cols r =
           Inr (\<lparr>current_price = None, current_value = None, total_cost = cost_of b s, profit_dollar = None,
                 profit_pct = None, analyst_target = None, analyst_upside = None\<rparr>,
                [St_error (''Error fetching '' @ t @ '': '' @ e)])"
  using assms by (simp add: process_row_derive fetch_def derive_unpriced bind_err_def)

text \<open>
  Claim C4.  When every row can be read and the provider raises for the ticker of row
  \<open>i\<close>, the loop still returns one record per row, the error naming the ticker is among
  the reported ones, the current price, current value, profit, profit percentage, analyst
  target and analyst upside of row \<open>i\<close> are absent, and every row's record is the one
  that row gives when processed on its own.
\<close>

theorem fetch_failure_per_row:
  assumes "\<forall>r \<in> set rs. \<exists>x. read_row env cols r = Inr x"
    and "i < length rs" and "read_row env cols (rs ! i) = Inr (t, s, b, y)"
    and "t \<noteq> []" and "yf t = Inl e"
  shows "\<exists>ms ds. refresh_loop env yf cols rs = (ms, Inr ds) \<and> length ds = length rs \<and>
           St_error (''Error fetching '' @ t @ '': '' @ e) \<in> set ms \<and>
           current_price (ds ! i) = None \<and> current_value (ds ! i) = None \<and>
           profit_dollar (ds ! i) = None \<and> profit_pct (ds ! i) = None \<and>
           analyst_target (ds ! i) = None \<and> analyst_upside (ds ! i) = None \<and>
           (\<forall>j < length rs. \<exists>m. process_row env yf cols (rs ! j) = Inr (ds ! j, m))"
proof -
  from refresh_loop_total[OF assms(1)] obtain ms ds where l: "refresh_loop env yf cols rs = (ms, Inr ds)"
    by blast
  note rows = refresh_loop_rows[OF l]
  from rows assms(2) obtain m where m: "process_row env yf cols (rs ! i) = Inr (ds ! i, m)" "set m \<subseteq> set ms"
    by blast
  from m(1) process_row_failed[of env cols "rs ! i" t s b y yf e, OF assms(3,4,5)]
  have d: "ds ! i = \<lparr>current_price = None, current_value = None, total_cost = cost_of b s, profit_dollar = None,
                 profit_pct = None, analyst_target = None, analyst_upside = None\<rparr>"
    and "m = [St_error (''Error fetching '' @ t @ '': '' @ e)]"
    by simp_all
  with m(2) have "St_error (''Error fetching '' @ t @ '': '' @ e) \<in> set ms" by simp
  moreover have "\<forall>j < length rs. \<exists>m. process_row env yf cols (rs ! j) = Inr (ds ! j, m)"
    using rows by blast
  ultimately show ?thesis using l rows d by auto
qed

text \<open>
  Two rows, the second with the ticker for which the provider raises; the first is typed
  in lower case between blanks and is fetched as AAPL.
\<close>

theorem fetch_failure_per_row_witness:
  "\<exists>ms ds. refresh_loop plain_env demo_provider base_columns
       [[Str '' aapl '', Num 10, Num 150, NA], [Str ''BADTICKER'', Num 2, Num 50, NA]] = (ms, Inr ds) \<and>
     length ds = 2 \<and> St_error ''Error fetching BADTICKER: no data'' \<in> set ms \<and>
     current_price (ds ! 1) = None \<and> current_value (ds ! 1) = None \<and>
     profit_dollar (ds ! 1) = None \<and> profit_pct (ds ! 1) = None \<and>
     analyst_target (ds ! 1) = None \<and> analyst_upside (ds ! 1) = None \<and>
     process_row plain_env demo_provider base_columns [Str '' aapl '', Num 10, Num 150, NA] =
       Inr (ds ! 0, [])"
proof -
  let ?r0 = "[Str '' aapl '', Num 10, Num 150, NA]"
  let ?r1 = "[Str ''BADTICKER'', Num 2, Num 50, NA]"
  have R0: "read_row plain_env base_columns ?r0 = Inr (''AAPL'', 10, 150, None)"
    by (simp add: read_row_base upper_strip_aapl rnd64_examples)
  have R1: "read_row plain_env base_columns ?r1 = Inr (''BADTICKER'', 2, 50, None)"
    by (simp add: read_row_base upper_strip_BADTICKER rnd64_examples)
  have all: "\<forall>r \<in> set [?r0, ?r1]. \<exists>x. read_row plain_env base_columns r = Inr x"
    using R0 R1 by simp
  have i: "(1::nat) < length [?r0, ?r1]" by simp
  have Ri: "read_row plain_env base_columns ([?r0, ?r1] ! 1) = Inr (''BADTICKER'', 2, 50, None)"
    using R1 by simp
  have f: "demo_provider ''BADTICKER'' = Inl ''no data''" by (simp add: demo_provider_def)
  have ne: "''BADTICKER'' \<noteq> []" by simp
  from fetch_failure_per_row[of "[?r0, ?r1]" plain_env base_columns 1 "''BADTICKER''" 2 50 None
      demo_provider "''no data''", OF all i Ri ne f]
  obtain ms ds where h: "refresh_loop plain_env demo_provider base_columns [?r0, ?r1] = (ms, Inr ds)"
    "length ds = length [?r0, ?r1]"
    "St_error (''Error fetching '' @ ''BADTICKER'' @ '': '' @ ''no data'') \<in> set ms"
    "current_price (ds ! 1) = None" "current_value (ds ! 1) = None"
    "profit_dollar (ds ! 1) = None" "profit_pct (ds ! 1) = None"
    "analyst_target (ds ! 1) = None" "analyst_upside (ds ! 1) = None"
    "\<forall>j < length [?r0, ?r1]. \<exists>m. process_row plain_env demo_provider base_columns ([?r0, ?r1] ! j) = Inr (ds ! j, m)"
    by blast
  from h(10) obtain m where m: "process_row plain_env demo_provider base_columns ?r0 = Inr (ds ! 0, m)"
    by fastforce
  have "snd (snd (fetch demo_provider ''AAPL'')) = []"
    by (simp add: fetch_def demo_provider_def)
  moreover from derive_total obtain d where
    "derive 10 150 (fst (fetch demo_provider ''AAPL'')) (fst (snd (fetch demo_provider ''AAPL''))) = Inr d"
    by blast
  ultimately have "m = []" using m by (simp add: process_row_derive[OF R0] bind_err_def)
  with m h show ?thesis by (intro exI[of _ ms] exI[of _ ds]) simp
qed

section \<open>Totals\<close>











section \<open>Saving and loading\<close>

text \<open>
  Claim C9.  When \<^verbatim>\<open>clear\<close> succeeds and \<^verbatim>\<open>append_row\<close> raises, the worksheet
  is left empty whatever it held; when \<^verbatim>\<open>append_rows\<close> raises, it holds the header
  only.  The failure is reported, not raised, and the session keeps the edited holdings.
\<close>

theorem save_not_atomic:
  "(fl Clear = None \<and> fl Append_row = Some e \<longrightarrow>
      save_holdings env fl df sh = ([], St_error (''Save failed: '' @ e))) \<and>
   (fl Clear = None \<and> fl Append_row = None \<and> fl Append_rows = Some e \<longrightarrow>
      save_holdings env fl df sh = ([map Str (columns df)], St_error (''Save failed: '' @ e))) \<and>
   (session_holdings st = Some h \<longrightarrow>
      script_run env fl yf editor Save_button st =
        \<lparr>state = \<lparr>session_holdings = Some (editor h),
                  worksheet = fst (save_holdings env fl (editor h) (worksheet st))\<rparr>,
         notices = [snd (save_holdings env fl (editor h) (worksheet st))],
         metrics = None, crashed = None\<rparr>)"
proof -
  have s: "NA \<notin> set (map Str (columns df))" by auto
  have a: "fl Clear = None \<and> fl Append_row = Some e \<longrightarrow>
      save_holdings env fl df sh = ([], St_error (''Save failed: '' @ e))"
    by (simp add: save_holdings_def sheet_clear_def sheet_append_row_def save_failed_def)
  have b: "fl Clear = None \<and> fl Append_row = None \<and> fl Append_rows = Some e \<longrightarrow>
      save_holdings env fl df sh = ([map Str (columns df)], St_error (''Save failed: '' @ e))"
    using s by (simp add: save_holdings_def sheet_clear_def sheet_append_row_def sheet_append_rows_def save_failed_def)
  have c: "session_holdings st = Some h \<longrightarrow>
      script_run env fl yf editor Save_button st =
        \<lparr>state = \<lparr>session_holdings = Some (editor h),
                  worksheet = fst (save_holdings env fl (editor h) (worksheet st))\<rparr>,
         notices = [snd (save_holdings env fl (editor h) (worksheet st))],
         metrics = None, crashed = None\<rparr>"
    by (simp add: script_run_def Let_def split: prod.splits)
  from a b c show ?thesis by blast
qed

text \<open>A save over the worksheet that holds one position, with a client that times out.\<close>

theorem save_not_atomic_witness:
  "save_holdings plain_env (\<lambda>c. if c = Append_row then Some ''timeout'' else None)
      \<lparr>columns = base_columns, data = [[Str ''MSFT'', Num 1, Num 300, NA]]\<rparr> demo_sheet =
     ([], St_error ''Save failed: timeout'') \<and>
   save_holdings plain_env (\<lambda>c. if c = Append_rows then Some ''timeout'' else None)
      \<lparr>columns = base_columns, data = [[Str ''MSFT'', Num 1, Num 300, NA]]\<rparr> demo_sheet =
     ([map Str base_columns], St_error ''Save failed: timeout'') \<and>
   script_run plain_env (\<lambda>c. if c = Append_row then Some ''timeout'' else None) demo_provider id Save_button
      \<lparr>session_holdings = Some \<lparr>columns = base_columns, data = [[Str ''MSFT'', Num 1, Num 300, NA]]\<rparr>,
       worksheet = demo_sheet\<rparr> =
     \<lparr>state = \<lparr>session_holdings = Some \<lparr>columns = base_columns, data = [[Str ''MSFT'', Num 1, Num 300, NA]]\<rparr>,
               worksheet = []\<rparr>,
      notices = [St_error ''Save failed: timeout''], metrics = None, crashed = None\<rparr>"
proof -
  let ?f1 = "\<lambda>c. if c = Append_row then Some ''timeout'' else None"
  let ?f2 = "\<lambda>c. if c = Append_rows then Some ''timeout'' else None"
  let ?df = "\<lparr>columns = base_columns, data = [[Str ''MSFT'', Num 1, Num 300, NA]]\<rparr>"
  let ?st = "\<lparr>session_holdings = Some ?df, worksheet = demo_sheet\<rparr>"
  have a: "save_holdings plain_env ?f1 ?df demo_sheet = ([], St_error ''Save failed: timeout'')"
    using save_not_atomic[of ?f1 "''timeout''" plain_env ?df demo_sheet] by simp
  have b: "save_holdings plain_env ?f2 ?df demo_sheet = ([map Str base_columns], St_error ''Save failed: timeout'')"
    using save_not_atomic[of ?f2 "''timeout''" plain_env ?df demo_sheet] by simp
  have c: "script_run plain_env ?f1 demo_provider id Save_button ?st =
     \<lparr>state = \<lparr>session_holdings = Some ?df, worksheet = []\<rparr>,
      notices = [St_error ''Save failed: timeout''], metrics = None, crashed = None\<rparr>"
    using save_not_atomic[of ?f1 "''timeout''" plain_env ?df demo_sheet ?st ?df demo_provider id] a
    by simp
  from a b c show ?thesis by blast
qed

text \<open>
  Without any fault of the store, a frame with a \<^verbatim>\<open>nan\<close> in a row is not saved: the
  worksheet is cleared, the header is written and the rows are refused.
\<close>

lemma save_nan_row:
  "save_holdings plain_env no_faults \<lparr>columns = base_columns, data = [[Str ''MSFT'', Num 1, Num 300, NA]]\<rparr> demo_sheet =
     ([map Str base_columns], St_error ''Save failed: Out of range float values are not JSON compliant'')"
  by (simp add: save_holdings_def no_faults_def sheet_clear_def sheet_append_row_def sheet_append_rows_def
      save_failed_def plain_env_def base_columns_def)



















end
